theory Spec2Isabelle
  imports Main "HOL-Library.Sublist"
begin

section \<open>Values, strings and frontmatter maps\<close>

text \<open>
  The plugin moves YAML frontmatter values between keys without ever inspecting them, so a
  value is an opaque JavaScript value (a number is kept as an integer, an object as the
  list of its own properties in the order they were inserted). Strings are sequences of
  8-bit characters. A frontmatter map is the map of the own properties of a note's
  frontmatter object: two frontmatter objects are the same map when they bind the same
  keys to the same values, in whatever order the keys were inserted.
\<close>

datatype jvalue =
    JNull
  | JUndefined
  | JBool bool
  | JNum int
  | JStr string
  | JArr "jvalue list"
  | JObj "(string \<times> jvalue) list"

type_synonym frontmatter = "string \<rightharpoonup> jvalue"

definition hasOwn :: "frontmatter \<Rightarrow> string \<Rightarrow> bool" where
  "hasOwn fm k = (fm k \<noteq> None)"

text \<open>\<open>String.prototype.trim\<close>: the white space of the 8-bit range.\<close>

definition isSpace :: "char \<Rightarrow> bool" where
  "isSpace c = (c = CHR 0x09 \<or> c = CHR 0x0A \<or> c = CHR 0x0B \<or> c = CHR 0x0C \<or> c = CHR 0x0D
                \<or> c = CHR 0x20 \<or> c = CHR 0xA0)"

definition trim :: "string \<Rightarrow> string" where
  "trim s = rev (dropWhile isSpace (rev (dropWhile isSpace s)))"

text \<open>\<open>s.replace(/\\/g, "/")\<close>: every backslash becomes a slash.\<close>

definition replaceBackslashes :: "string \<Rightarrow> string" where
  "replaceBackslashes s = map (\<lambda>c. if c = CHR 0x5C then CHR ''/'' else c) s"

text \<open>\<open>s.split(",")\<close>: the pieces between the commas; the empty string splits into one
  empty piece.\<close>

fun splitOn :: "char \<Rightarrow> string \<Rightarrow> string list" where
  "splitOn c [] = [[]]"
| "splitOn c (x # xs) =
     (if x = c then [] # splitOn c xs
      else (case splitOn c xs of
              [] \<Rightarrow> [[x]]
            | w # ws \<Rightarrow> (x # w) # ws))"

section \<open>Types and settings\<close>

datatype SyncReason = ReasonOpen | ReasonModify | ReasonMetadataChanged | ReasonManual

record FolderRule =
  folderPrefix :: string
  namespaceSlug :: string
  templateEnabled :: bool
  templateYaml :: string

record SoftAliasSettings =
  folderRules :: "FolderRule list"
  managedAliasKeys :: string
  removePlainAliasKeysOnSync :: bool
  storagePrefix :: string
  storageSeparator :: string
  deleteStorageKeysOnRestore :: bool
  hideStorageKeysInPropertyNameSuggest :: bool
  enableQuickAddManagedProperty :: bool
  enableAutoTemplateOnCreate :: bool
  applyTemplateOnlyIfNoFrontmatter :: bool
  debounceMs :: int
  debugLogs :: bool

definition DEFAULT_SETTINGS :: SoftAliasSettings where
  "DEFAULT_SETTINGS =
     \<lparr> folderRules = [],
       managedAliasKeys = ''priority,status,owner'',
       removePlainAliasKeysOnSync = True,
       storagePrefix = '''',
       storageSeparator = ''__'',
       deleteStorageKeysOnRestore = False,
       hideStorageKeysInPropertyNameSuggest = True,
       enableQuickAddManagedProperty = True,
       enableAutoTemplateOnCreate = True,
       applyTemplateOnlyIfNoFrontmatter = True,
       debounceMs = 300,
       debugLogs = True \<rparr>"

section \<open>Helpers\<close>

definition normalizePrefix :: "string \<Rightarrow> string" where
  "normalizePrefix folder =
     (let p = trim folder in
      if p = [] then []
      else (let normalized = replaceBackslashes p in
            if last normalized = CHR ''/'' then normalized else normalized @ ''/''))"

definition parseManagedKeys :: "string \<Rightarrow> string list" where
  "parseManagedKeys raw = filter (\<lambda>s. s \<noteq> []) (map trim (splitOn CHR '','' raw))"

section \<open>Key logic\<close>

definition getManagedAliasKeys :: "SoftAliasSettings \<Rightarrow> string list" where
  "getManagedAliasKeys st = parseManagedKeys (managedAliasKeys st)"

definition storageSep :: "SoftAliasSettings \<Rightarrow> string" where
  "storageSep st =
     (let s = trim (if storageSeparator st = [] then ''__'' else storageSeparator st) in
      if s = [] then ''__'' else s)"

definition makeStorageKey :: "SoftAliasSettings \<Rightarrow> string \<Rightarrow> string \<Rightarrow> string" where
  "makeStorageKey st slug aliasKey = trim (storagePrefix st) @ slug @ storageSep st @ aliasKey"

section \<open>Scope helpers\<close>

text \<open>The loop of \<open>getNamespaceSlugForFile\<close> over the rule list, on the path whose
  separators are already normalized.\<close>

fun slugLoop :: "string \<Rightarrow> FolderRule list \<Rightarrow> string option" where
  "slugLoop path [] = None"
| "slugLoop path (rule # rules) =
     (let pfx = normalizePrefix (folderPrefix rule);
          slug = trim (namespaceSlug rule) in
      if pfx = [] \<or> slug = [] then slugLoop path rules
      else if prefix pfx path then Some slug
      else slugLoop path rules)"

definition getNamespaceSlugForFile :: "SoftAliasSettings \<Rightarrow> string \<Rightarrow> string option" where
  "getNamespaceSlugForFile st filePath = slugLoop (replaceBackslashes filePath) (folderRules st)"

fun ruleLoop :: "string \<Rightarrow> FolderRule list \<Rightarrow> FolderRule option" where
  "ruleLoop path [] = None"
| "ruleLoop path (rule # rules) =
     (let pfx = normalizePrefix (folderPrefix rule);
          slug = trim (namespaceSlug rule) in
      if pfx = [] \<or> slug = [] then ruleLoop path rules
      else if prefix pfx path then Some rule
      else ruleLoop path rules)"

definition getRuleForFile :: "SoftAliasSettings \<Rightarrow> string \<Rightarrow> FolderRule option" where
  "getRuleForFile st filePath = ruleLoop (replaceBackslashes filePath) (folderRules st)"

section \<open>The frontmatter object inside a mutator\<close>

text \<open>
  \<open>processFrontMatter\<close> hands the mutator a fresh plain object whose own properties are the
  note's frontmatter. The mutators test keys with \<open>Object.prototype.hasOwnProperty.call\<close>,
  read a key only after that test succeeded, delete keys and assign to keys. All of this
  works on own properties, except the assignment to the key \<open>__proto__\<close>: as long as the
  object has no own property of that name and inherits the accessor of
  \<open>Object.prototype\<close>, the assignment \<open>fm["__proto__"] = v\<close> calls that accessor's setter,
  which creates no own property; it replaces the prototype when \<open>v\<close> is \<open>null\<close> or an
  object and does nothing otherwise. Once the prototype is \<open>null\<close>, or an object that has an
  own property \<open>__proto__\<close>, the accessor is no longer reached and a later assignment
  creates the own property like any other. So the object is its own properties and one
  flag: whether an assignment to \<open>__proto__\<close> still reaches the accessor.
\<close>

record fmObject =
  own :: frontmatter
  protoAccessor :: bool

definition freshObject :: "frontmatter \<Rightarrow> fmObject" where
  "freshObject fm = \<lparr>own = fm, protoAccessor = True\<rparr>"

text \<open>\<open>fm[k]\<close>, read where \<open>k\<close> is an own property.\<close>

definition getProp :: "fmObject \<Rightarrow> string \<Rightarrow> jvalue" where
  "getProp ob k = (case own ob k of None \<Rightarrow> JUndefined | Some v \<Rightarrow> v)"

text \<open>\<open>fm[k] = v\<close>.\<close>

definition setProp :: "fmObject \<Rightarrow> string \<Rightarrow> jvalue \<Rightarrow> fmObject" where
  "setProp ob k v =
     (if k = ''__proto__'' \<and> own ob k = None \<and> protoAccessor ob then
        (case v of
           JNull \<Rightarrow> ob\<lparr>protoAccessor := False\<rparr>
         | JObj props \<Rightarrow> ob\<lparr>protoAccessor := (''__proto__'' \<notin> set (map fst props))\<rparr>
         | _ \<Rightarrow> ob)
      else ob\<lparr>own := (own ob)(k \<mapsto> v)\<rparr>)"

text \<open>\<open>delete fm[k]\<close>.\<close>

definition deleteProp :: "fmObject \<Rightarrow> string \<Rightarrow> fmObject" where
  "deleteProp ob k = ob\<lparr>own := (own ob)(k := None)\<rparr>"

section \<open>The frontmatter mutators\<close>

text \<open>The body of the loop inside the mutator that \<open>normalizeFileNow\<close> hands to
  \<open>processFrontMatter\<close>, for one managed alias key.\<close>

definition syncStep :: "SoftAliasSettings \<Rightarrow> string \<Rightarrow> string \<Rightarrow> fmObject \<Rightarrow> fmObject" where
  "syncStep st slug aliasKey ob =
     (let storageKey = makeStorageKey st slug aliasKey;
          hasAlias = hasOwn (own ob) aliasKey;
          hasStorage = hasOwn (own ob) storageKey in
      if hasStorage then
        (if removePlainAliasKeysOnSync st \<and> hasAlias then deleteProp ob aliasKey else ob)
      else if hasAlias then
        (let ob1 = setProp ob storageKey (getProp ob aliasKey) in
         if removePlainAliasKeysOnSync st then deleteProp ob1 aliasKey else ob1)
      else ob)"

text \<open>The mutator's loop over the managed keys, and the mutator as a function from the
  frontmatter it is handed to the frontmatter that is written back.\<close>

definition syncLoop :: "SoftAliasSettings \<Rightarrow> string \<Rightarrow> string list \<Rightarrow> fmObject \<Rightarrow> fmObject" where
  "syncLoop st slug managed ob = fold (syncStep st slug) managed ob"

definition applySync :: "SoftAliasSettings \<Rightarrow> string \<Rightarrow> string list \<Rightarrow> frontmatter \<Rightarrow> frontmatter" where
  "applySync st slug managed fm = own (syncLoop st slug managed (freshObject fm))"

fun computeNeedsNormalization ::
  "SoftAliasSettings \<Rightarrow> frontmatter \<Rightarrow> string \<Rightarrow> string list \<Rightarrow> bool" where
  "computeNeedsNormalization st fm slug [] = False"
| "computeNeedsNormalization st fm slug (aliasKey # managed) =
     (let storageKey = makeStorageKey st slug aliasKey;
          hasAlias = hasOwn fm aliasKey;
          hasStorage = hasOwn fm storageKey in
      if \<not> hasStorage \<and> hasAlias then True
      else if hasStorage \<and> hasAlias \<and> removePlainAliasKeysOnSync st then True
      else computeNeedsNormalization st fm slug managed)"

text \<open>The mutator of \<open>restoreAliasesForFile\<close>.\<close>

definition restoreStep :: "SoftAliasSettings \<Rightarrow> string \<Rightarrow> string \<Rightarrow> fmObject \<Rightarrow> fmObject" where
  "restoreStep st slug aliasKey ob =
     (let storageKey = makeStorageKey st slug aliasKey in
      if \<not> hasOwn (own ob) storageKey then ob
      else (let ob1 = setProp ob aliasKey (getProp ob storageKey) in
            if deleteStorageKeysOnRestore st then deleteProp ob1 storageKey else ob1))"

definition restoreLoop :: "SoftAliasSettings \<Rightarrow> string \<Rightarrow> string list \<Rightarrow> fmObject \<Rightarrow> fmObject" where
  "restoreLoop st slug managed ob = fold (restoreStep st slug) managed ob"

definition restoreAliases :: "SoftAliasSettings \<Rightarrow> string \<Rightarrow> string list \<Rightarrow> frontmatter \<Rightarrow> frontmatter" where
  "restoreAliases st slug managed fm = own (restoreLoop st slug managed (freshObject fm))"

text \<open>The mutator of \<open>applyTemplateToNewFile\<close>, over the entries \<open>Object.entries(obj)\<close>
  of the parsed template, \<open>managed\<close> being the list the \<open>managedSet\<close> is built from.\<close>

definition templateStep ::
  "SoftAliasSettings \<Rightarrow> string \<Rightarrow> string list \<Rightarrow> string \<times> jvalue \<Rightarrow> fmObject \<Rightarrow> fmObject" where
  "templateStep st slug managed kv ob =
     (let aliasKey = trim (fst kv); v = snd kv in
      if aliasKey = [] then ob
      else if managed \<noteq> [] \<and> aliasKey \<notin> set managed then ob
      else (let storageKey = makeStorageKey st slug aliasKey in
            if hasOwn (own ob) storageKey then ob
            else (let ob1 = setProp ob storageKey v in
                  if \<not> removePlainAliasKeysOnSync st
                  then (if \<not> hasOwn (own ob1) aliasKey then setProp ob1 aliasKey v else ob1)
                  else ob1)))"

definition templateLoop ::
  "SoftAliasSettings \<Rightarrow> string \<Rightarrow> string list \<Rightarrow> (string \<times> jvalue) list \<Rightarrow> fmObject \<Rightarrow> fmObject" where
  "templateLoop st slug managed entries ob = fold (templateStep st slug managed) entries ob"

definition applyTemplate ::
  "SoftAliasSettings \<Rightarrow> string \<Rightarrow> string list \<Rightarrow> (string \<times> jvalue) list \<Rightarrow> frontmatter \<Rightarrow> frontmatter" where
  "applyTemplate st slug managed entries fm = own (templateLoop st slug managed entries (freshObject fm))"

text \<open>The mutator of \<open>addManagedPropertyToFile\<close>.\<close>

definition addManagedProperty :: "string \<Rightarrow> frontmatter \<Rightarrow> frontmatter" where
  "addManagedProperty aliasKey fm =
     (if \<not> hasOwn fm aliasKey then own (setProp (freshObject fm) aliasKey JNull) else fm)"

section \<open>The plugin and its collaborators\<close>

text \<open>
  The state the asynchronous operations run against: the plugin's settings and its two
  scheduling tables (the pending debounce timer of a path, reduced to the reason it will
  fire with, and the in-flight set), and the Obsidian collaborators: the frontmatter each
  note holds on disk, the metadata cache's snapshot of it, the raw text of a note, the
  list \<open>vault.getMarkdownFiles()\<close>, the YAML parser (\<open>None\<close> when it throws) and the
  paths on which \<open>fileManager.processFrontMatter\<close> rejects. A file is identified by
  its path. An operation returns the settled promise (\<open>Inl\<close> a rejection) and the state.
\<close>

datatype error = StorageWriteFailure

record world =
  settings :: SoftAliasSettings
  pendingTimers :: "string \<rightharpoonup> SyncReason"
  inFlight :: "string set"
  frontmatterOf :: "string \<Rightarrow> frontmatter"
  cachedFrontmatter :: "string \<Rightarrow> frontmatter option"
  contentOf :: "string \<Rightarrow> string"
  markdownFiles :: "string list"
  parseYaml :: "string \<Rightarrow> jvalue option"
  writeRejects :: "string set"

text \<open>\<open>processFrontMatter(file, fn)\<close>: a scoped read-modify-write of the note's frontmatter,
  or a rejection that leaves the note as it was.\<close>

definition processFrontMatter ::
  "world \<Rightarrow> string \<Rightarrow> (frontmatter \<Rightarrow> frontmatter) \<Rightarrow> (error + unit) \<times> world" where
  "processFrontMatter w filePath fn =
     (if filePath \<in> writeRejects w then (Inl StorageWriteFailure, w)
      else (Inr (), w\<lparr>frontmatterOf := (frontmatterOf w)(filePath := fn (frontmatterOf w filePath))\<rparr>))"

definition scheduleNormalize :: "world \<Rightarrow> string \<Rightarrow> SyncReason \<Rightarrow> world" where
  "scheduleNormalize w filePath reason =
     (case getNamespaceSlugForFile (settings w) filePath of
        None \<Rightarrow> w
      | Some slug \<Rightarrow> w\<lparr>pendingTimers := (pendingTimers w)(filePath \<mapsto> reason)\<rparr>)"

definition normalizeFileNow :: "world \<Rightarrow> string \<Rightarrow> SyncReason \<Rightarrow> (error + unit) \<times> world" where
  "normalizeFileNow w filePath reason =
     (case getNamespaceSlugForFile (settings w) filePath of
        None \<Rightarrow> (Inr (), w)
      | Some slug \<Rightarrow>
          if filePath \<in> inFlight w then (Inr (), w)
          else (let managed = getManagedAliasKeys (settings w) in
            if managed = [] then (Inr (), w)
            else (let fmPreview = (case cachedFrontmatter w filePath of
                                     None \<Rightarrow> Map.empty
                                   | Some fm \<Rightarrow> fm) in
              if \<not> computeNeedsNormalization (settings w) fmPreview slug managed then (Inr (), w)
              else (let w1 = w\<lparr>inFlight := insert filePath (inFlight w)\<rparr>;
                        (r, w2) = processFrontMatter w1 filePath (applySync (settings w1) slug managed)
                    in (r, w2\<lparr>inFlight := inFlight w2 - {filePath}\<rparr>)))))"

definition addManagedPropertyToFile :: "world \<Rightarrow> string \<Rightarrow> string \<Rightarrow> (error + unit) \<times> world" where
  "addManagedPropertyToFile w filePath aliasKey =
     (case getNamespaceSlugForFile (settings w) filePath of
        None \<Rightarrow> (Inr (), w)
      | Some slug \<Rightarrow>
          if filePath \<in> inFlight w then (Inr (), w)
          else (let w1 = w\<lparr>inFlight := insert filePath (inFlight w)\<rparr>;
                    (r, w2) = processFrontMatter w1 filePath (addManagedProperty aliasKey);
                    w3 = (case r of Inl e \<Rightarrow> w2 | Inr u \<Rightarrow> scheduleNormalize w2 filePath ReasonManual)
                in (r, w3\<lparr>inFlight := inFlight w3 - {filePath}\<rparr>)))"

definition restoreAliasesForFile :: "world \<Rightarrow> string \<Rightarrow> (error + unit) \<times> world" where
  "restoreAliasesForFile w filePath =
     (case getRuleForFile (settings w) filePath of
        None \<Rightarrow> (Inr (), w)
      | Some rule \<Rightarrow>
          (let slug = trim (namespaceSlug rule);
               managed = getManagedAliasKeys (settings w) in
           if managed = [] then (Inr (), w)
           else if filePath \<in> inFlight w then (Inr (), w)
           else (let w1 = w\<lparr>inFlight := insert filePath (inFlight w)\<rparr>;
                     (r, w2) = processFrontMatter w1 filePath (restoreAliases (settings w1) slug managed)
                 in (r, w2\<lparr>inFlight := inFlight w2 - {filePath}\<rparr>))))"

text \<open>The loop of \<open>restoreAliasesForAllScopedFiles\<close>: an \<open>await\<close> that rejects leaves the
  loop, and the function's promise rejects with it.\<close>

fun restoreAllLoop :: "string list \<Rightarrow> nat \<Rightarrow> world \<Rightarrow> (error + nat) \<times> world" where
  "restoreAllLoop [] count w = (Inr count, w)"
| "restoreAllLoop (f # fs) count w =
     (case getRuleForFile (settings w) f of
        None \<Rightarrow> restoreAllLoop fs count w
      | Some rule \<Rightarrow>
          (case restoreAliasesForFile w f of
             (Inl e, w') \<Rightarrow> (Inl e, w')
           | (Inr u, w') \<Rightarrow> restoreAllLoop fs (count + 1) w'))"

definition restoreAliasesForAllScopedFiles :: "world \<Rightarrow> (error + nat) \<times> world" where
  "restoreAliasesForAllScopedFiles w = restoreAllLoop (markdownFiles w) 0 w"

text \<open>
  \<open>Object.entries(obj)\<close> for the values that pass \<open>!obj || typeof obj !== "object"\<close>.
  An array gives its elements under their decimal indices. An object gives its own
  properties in the order of \<open>OrdinaryOwnPropertyKeys\<close>: first the keys that are array
  indices (canonical decimal numerals below \<open>2^32 - 1\<close>) in ascending numeric order, then
  the other keys in the order they were inserted, which for a parsed YAML mapping is the
  order they are declared in (a mapping declares a key once).
\<close>

fun showNat :: "nat \<Rightarrow> string" where
  "showNat n = (if n < 10 then [char_of (48 + n)] else showNat (n div 10) @ [char_of (48 + n mod 10)])"

definition digitValue :: "char \<Rightarrow> nat option" where
  "digitValue c = map_of (zip ''0123456789'' [0, 1, 2, 3, 4, 5, 6, 7, 8, 9]) c"

definition decimalValue :: "string \<Rightarrow> nat" where
  "decimalValue s = foldl (\<lambda>n c. 10 * n + (case digitValue c of None \<Rightarrow> 0 | Some d \<Rightarrow> d)) 0 s"

definition isArrayIndex :: "string \<Rightarrow> bool" where
  "isArrayIndex s =
     (s \<noteq> [] \<and> list_all (\<lambda>c. digitValue c \<noteq> None) s \<and> (s = ''0'' \<or> hd s \<noteq> CHR ''0'')
      \<and> decimalValue s < 4294967295)"

definition ownPropertyEntries :: "(string \<times> jvalue) list \<Rightarrow> (string \<times> jvalue) list" where
  "ownPropertyEntries props =
     sort_key (\<lambda>kv. decimalValue (fst kv)) (filter (\<lambda>kv. isArrayIndex (fst kv)) props)
     @ filter (\<lambda>kv. \<not> isArrayIndex (fst kv)) props"

definition objectEntries :: "jvalue \<Rightarrow> (string \<times> jvalue) list option" where
  "objectEntries obj =
     (case obj of
        JObj props \<Rightarrow> Some (ownPropertyEntries props)
      | JArr xs \<Rightarrow> Some (zip (map showNat [0 ..< length xs]) xs)
      | _ \<Rightarrow> None)"

definition applyTemplateToNewFile :: "world \<Rightarrow> string \<Rightarrow> (error + unit) \<times> world" where
  "applyTemplateToNewFile w filePath =
     (case getRuleForFile (settings w) filePath of
        None \<Rightarrow> (Inr (), w)
      | Some rule \<Rightarrow>
          if \<not> templateEnabled rule then (Inr (), w)
          else (let yamlText = trim (templateYaml rule) in
            if yamlText = [] then (Inr (), w)
            else if applyTemplateOnlyIfNoFrontmatter (settings w) \<and> prefix ''---'' (contentOf w filePath)
            then (Inr (), w)
            else (case parseYaml w yamlText of
                None \<Rightarrow> (Inr (), w)
              | Some obj \<Rightarrow>
                  (case objectEntries obj of
                     None \<Rightarrow> (Inr (), w)
                   | Some entries \<Rightarrow>
                       (let slug = trim (namespaceSlug rule);
                            managed = getManagedAliasKeys (settings w) in
                        if filePath \<in> inFlight w then (Inr (), w)
                        else (let w1 = w\<lparr>inFlight := insert filePath (inFlight w)\<rparr>;
                                  (r, w2) = processFrontMatter w1 filePath
                                              (applyTemplate (settings w1) slug managed entries);
                                  w3 = (case r of Inl e \<Rightarrow> w2
                                        | Inr u \<Rightarrow> scheduleNormalize w2 filePath ReasonManual)
                              in (r, w3\<lparr>inFlight := inFlight w3 - {filePath}\<rparr>)))))))"

section \<open>Notions the statements use\<close>

text \<open>The rule resolution as the specification words it: drop the inert rules, take the
  first rule left whose normalized prefix is a prefix of the normalized path.\<close>

definition inertRule :: "FolderRule \<Rightarrow> bool" where
  "inertRule rule = (trim (folderPrefix rule) = [] \<or> trim (namespaceSlug rule) = [])"

definition resolveRule :: "string \<Rightarrow> FolderRule list \<Rightarrow> FolderRule option" where
  "resolveRule filePath rules =
     find (\<lambda>rule. prefix (normalizePrefix (folderPrefix rule)) (replaceBackslashes filePath))
          (filter (\<lambda>rule. \<not> inertRule rule) rules)"

text \<open>A managed-key list is free of collisions when no storage key computed for a managed
  alias key is itself a managed alias key.\<close>

definition collisionFree :: "SoftAliasSettings \<Rightarrow> string \<Rightarrow> string list \<Rightarrow> bool" where
  "collisionFree st slug managed = list_all (\<lambda>a. makeStorageKey st slug a \<notin> set managed) managed"

text \<open>The template mutator as the specification words it: the trimmed, non-blank declared
  keys that the managed-key restriction admits, under their storage keys.\<close>

definition declaredDefaults ::
  "SoftAliasSettings \<Rightarrow> string \<Rightarrow> string list \<Rightarrow> (string \<times> jvalue) list \<Rightarrow> (string \<times> jvalue) list" where
  "declaredDefaults st slug managed entries =
     map (\<lambda>kv. (makeStorageKey st slug (trim (fst kv)), snd kv))
       (filter (\<lambda>kv. trim (fst kv) \<noteq> [] \<and> (managed = [] \<or> trim (fst kv) \<in> set managed)) entries)"

section \<open>Example inputs\<close>

text \<open>A rule without a template.\<close>

definition plainRule :: "string \<Rightarrow> string \<Rightarrow> FolderRule" where
  "plainRule pfx slug =
     \<lparr>folderPrefix = pfx, namespaceSlug = slug, templateEnabled = False, templateYaml = []\<rparr>"

text \<open>The rule of the specification's scenarios, with a template, and a vault of two notes
  under it: the settings, the frontmatter of each note and the paths whose writes reject are
  left open; the metadata cache is up to date and no operation is in flight.\<close>

definition projectsRule :: FolderRule where
  "projectsRule =
     \<lparr>folderPrefix = ''index/projects/'', namespaceSlug = ''projects'',
      templateEnabled = True, templateYaml = ''priority: medium''\<rparr>"

definition vaultOf :: "SoftAliasSettings \<Rightarrow> (string \<Rightarrow> frontmatter) \<Rightarrow> string set \<Rightarrow> world" where
  "vaultOf st fms rejects =
     \<lparr>settings = st\<lparr>folderRules := [projectsRule]\<rparr>,
      pendingTimers = Map.empty,
      inFlight = {},
      frontmatterOf = fms,
      cachedFrontmatter = (\<lambda>p. Some (fms p)),
      contentOf = (\<lambda>p. []),
      markdownFiles = [''index/projects/a.md'', ''index/projects/b.md''],
      parseYaml = (\<lambda>t. Some (JObj [(''priority'', JStr ''medium'')])),
      writeRejects = rejects\<rparr>"

section \<open>Storage keys and the key-wise form of the mutators\<close>

lemma storageSep_nonempty: "storageSep st \<noteq> []"
  by (simp add: storageSep_def Let_def)

lemma makeStorageKey_inj [simp]:
  "(makeStorageKey st slug a = makeStorageKey st slug b) = (a = b)"
  by (simp add: makeStorageKey_def)

lemma makeStorageKey_longer: "length a < length (makeStorageKey st slug a)"
  using storageSep_nonempty [of st] by (simp add: makeStorageKey_def)

lemma makeStorageKey_neq [simp]: "makeStorageKey st slug a \<noteq> a" "a \<noteq> makeStorageKey st slug a"
  using makeStorageKey_longer [of a st slug] by auto

lemma own_freshObject [simp]: "own (freshObject fm) = fm" "protoAccessor (freshObject fm) = True"
  by (simp_all add: freshObject_def)

lemma own_setProp:
  "own (setProp ob k v) =
     (if k = ''__proto__'' \<and> own ob k = None \<and> protoAccessor ob then own ob else (own ob)(k \<mapsto> v))"
  by (auto simp: setProp_def split: jvalue.splits)

lemma protoAccessor_setProp: "k \<noteq> ''__proto__'' \<Longrightarrow> protoAccessor (setProp ob k v) = protoAccessor ob"
  by (simp add: setProp_def)

lemma own_deleteProp [simp]:
  "own (deleteProp ob k) = (own ob)(k := None)" "protoAccessor (deleteProp ob k) = protoAccessor ob"
  by (simp_all add: deleteProp_def)

lemma getProp_own: "own ob k = Some v \<Longrightarrow> getProp ob k = v"
  by (simp add: getProp_def)

lemma syncStep_own:
  "own (syncStep st slug a ob) k =
     (if k = a then (if removePlainAliasKeysOnSync st then None else own ob a)
      else if k = makeStorageKey st slug a then
        (case own ob k of
           Some v \<Rightarrow> Some v
         | None \<Rightarrow> (if k = ''__proto__'' \<and> protoAccessor ob then None else own ob a))
      else own ob k)"
  by (auto simp: syncStep_def hasOwn_def Let_def own_setProp getProp_own split: option.splits)

lemma syncStep_flag:
  "makeStorageKey st slug a \<noteq> ''__proto__'' \<Longrightarrow>
   protoAccessor (syncStep st slug a ob) = protoAccessor ob"
  by (simp add: syncStep_def Let_def protoAccessor_setProp)

lemma syncStep_flag_cong:
  "own ob1 a = own ob2 a \<Longrightarrow>
   own ob1 (makeStorageKey st slug a) = own ob2 (makeStorageKey st slug a) \<Longrightarrow>
   protoAccessor ob1 = protoAccessor ob2 \<Longrightarrow>
   protoAccessor (syncStep st slug a ob1) = protoAccessor (syncStep st slug a ob2)"
  by (simp add: syncStep_def hasOwn_def Let_def setProp_def getProp_def split: jvalue.splits)

lemma restoreStep_own:
  "own (restoreStep st slug a ob) k =
     (if own ob (makeStorageKey st slug a) = None then own ob k
      else if k = makeStorageKey st slug a then (if deleteStorageKeysOnRestore st then None else own ob k)
      else if k = a then
        (if a = ''__proto__'' \<and> own ob a = None \<and> protoAccessor ob then None
         else own ob (makeStorageKey st slug a))
      else own ob k)"
  by (auto simp: restoreStep_def hasOwn_def Let_def own_setProp getProp_own split: option.splits)

lemma syncLoop_Cons: "syncLoop st slug (a # K) ob = syncLoop st slug K (syncStep st slug a ob)"
  by (simp add: syncLoop_def)

lemma syncLoop_Nil: "syncLoop st slug [] ob = ob"
  by (simp add: syncLoop_def)

lemma syncLoop_untouched:
  "k \<notin> set K \<Longrightarrow> k \<notin> makeStorageKey st slug ` set K \<Longrightarrow> own (syncLoop st slug K ob) k = own ob k"
  by (induction K arbitrary: ob) (auto simp: syncLoop_Cons syncLoop_Nil syncStep_own)

lemma syncLoop_alias:
  assumes "\<And>b. b \<in> A \<Longrightarrow> makeStorageKey st slug b \<notin> A" "set K \<subseteq> A" "a \<in> set K"
  shows "own (syncLoop st slug K ob) a = (if removePlainAliasKeysOnSync st then None else own ob a)"
  using assms(2,3)
proof (induction K arbitrary: ob)
  case Nil
  then show ?case by simp
next
  case (Cons b K)
  have aA: "a \<in> A" using Cons.prems by auto
  have bA: "b \<in> A" using Cons.prems by auto
  have ne: "a \<noteq> makeStorageKey st slug b" using assms(1) [OF bA] aA by auto
  show ?case
  proof (cases "a \<in> set K")
    case True
    then have "own (syncLoop st slug K (syncStep st slug b ob)) a =
        (if removePlainAliasKeysOnSync st then None else own (syncStep st slug b ob) a)"
      using Cons.IH Cons.prems by auto
    then show ?thesis using ne by (simp add: syncLoop_Cons syncStep_own)
  next
    case False
    then have ab: "a = b" using Cons.prems by auto
    have "a \<notin> makeStorageKey st slug ` set K"
      using assms(1) aA Cons.prems(1) by auto
    then have "own (syncLoop st slug K (syncStep st slug b ob)) a = own (syncStep st slug b ob) a"
      using False by (rule syncLoop_untouched [rotated])
    then show ?thesis using ab by (simp add: syncLoop_Cons syncStep_own)
  qed
qed

lemma syncLoop_storage:
  assumes "\<And>b. b \<in> A \<Longrightarrow> makeStorageKey st slug b \<notin> A" "set K \<subseteq> A" "a \<in> set K"
    and np: "makeStorageKey st slug a \<noteq> ''__proto__''"
  shows "own (syncLoop st slug K ob) (makeStorageKey st slug a) =
           (case own ob (makeStorageKey st slug a) of None \<Rightarrow> own ob a | Some v \<Rightarrow> Some v)"
  using assms(2,3)
proof (induction K arbitrary: ob)
  case Nil
  then show ?case by simp
next
  case (Cons b K)
  have aA: "a \<in> A" using Cons.prems by auto
  have bA: "b \<in> A" using Cons.prems by auto
  have ne: "a \<noteq> makeStorageKey st slug b" using assms(1) [OF bA] aA by auto
  have ne2: "makeStorageKey st slug a \<noteq> b" using assms(1) [OF aA] bA by auto
  show ?case
  proof (cases "a \<in> set K")
    case True
    then have "own (syncLoop st slug K (syncStep st slug b ob)) (makeStorageKey st slug a) =
        (case own (syncStep st slug b ob) (makeStorageKey st slug a) of
           None \<Rightarrow> own (syncStep st slug b ob) a | Some v \<Rightarrow> Some v)"
      using Cons.IH Cons.prems by auto
    then show ?thesis using ne ne2 np
      by (auto simp: syncLoop_Cons syncStep_own split: option.splits)
  next
    case False
    then have ab: "a = b" using Cons.prems by auto
    have 1: "makeStorageKey st slug a \<notin> makeStorageKey st slug ` set K"
      using False by auto
    have 2: "makeStorageKey st slug a \<notin> set K"
      using assms(1) [OF aA] Cons.prems(1) by auto
    have "own (syncLoop st slug K (syncStep st slug b ob)) (makeStorageKey st slug a)
            = own (syncStep st slug b ob) (makeStorageKey st slug a)"
      using 2 1 by (rule syncLoop_untouched)
    then show ?thesis using ab np by (auto simp: syncLoop_Cons syncStep_own split: option.splits)
  qed
qed

lemma syncLoop_keeps:
  "own ob k = Some v \<Longrightarrow> \<not> removePlainAliasKeysOnSync st \<or> k \<notin> set K \<Longrightarrow>
   own (syncLoop st slug K ob) k = Some v"
proof (induction K arbitrary: ob)
  case Nil
  then show ?case by (simp add: syncLoop_Nil)
next
  case (Cons b K)
  have "own (syncStep st slug b ob) k = Some v"
    using Cons.prems by (auto simp: syncStep_own)
  then show ?case using Cons.IH Cons.prems(2) by (auto simp: syncLoop_Cons)
qed

lemma syncLoop_no_alias:
  assumes "\<And>b. b \<in> A \<Longrightarrow> makeStorageKey st slug b \<notin> A" "a \<in> A"
  shows "set K \<subseteq> A \<Longrightarrow> own ob a = None \<Longrightarrow>
         own (syncLoop st slug K ob) (makeStorageKey st slug a) = own ob (makeStorageKey st slug a)"
proof (induction K arbitrary: ob)
  case Nil
  then show ?case by (simp add: syncLoop_Nil)
next
  case (Cons b K)
  have bA: "b \<in> A" using Cons.prems by auto
  have ne: "a \<noteq> makeStorageKey st slug b" using assms(1) [OF bA] assms(2) by auto
  have ne2: "makeStorageKey st slug a \<noteq> b" using assms(1) [OF assms(2)] bA by auto
  have 1: "own (syncStep st slug b ob) a = None"
    using Cons.prems(2) ne by (auto simp: syncStep_own)
  have 2: "own (syncStep st slug b ob) (makeStorageKey st slug a) = own ob (makeStorageKey st slug a)"
    using Cons.prems(2) ne2 by (auto simp: syncStep_own split: option.splits)
  show ?case using Cons.IH [OF _ 1] Cons.prems(1) 2 by (simp add: syncLoop_Cons)
qed

lemma syncLoop_proto_cong:
  assumes "\<And>b. b \<in> A \<Longrightarrow> makeStorageKey st slug b \<notin> A" "a \<in> A"
    and pk: "makeStorageKey st slug a = ''__proto__''"
  shows "set K \<subseteq> A \<Longrightarrow> own ob1 a = own ob2 a \<Longrightarrow> own ob1 ''__proto__'' = own ob2 ''__proto__'' \<Longrightarrow>
         protoAccessor ob1 = protoAccessor ob2 \<Longrightarrow>
         own (syncLoop st slug K ob1) ''__proto__'' = own (syncLoop st slug K ob2) ''__proto__''"
proof (induction K arbitrary: ob1 ob2)
  case Nil
  then show ?case by (simp add: syncLoop_Nil)
next
  case (Cons b K)
  have bA: "b \<in> A" using Cons.prems by auto
  have ne: "a \<noteq> makeStorageKey st slug b" using assms(1) [OF bA] assms(2) by auto
  have ne2: "''__proto__'' \<noteq> b" using assms(1) [OF assms(2)] bA pk by auto
  have 1: "own (syncStep st slug b ob1) a = own (syncStep st slug b ob2) a"
    using Cons.prems(2) ne by (auto simp: syncStep_own)
  have 2: "own (syncStep st slug b ob1) ''__proto__'' = own (syncStep st slug b ob2) ''__proto__''"
  proof (cases "b = a")
    case True
    then show ?thesis using Cons.prems(2,3,4) pk ne2
      by (cases "own ob2 ''__proto__''") (simp_all add: syncStep_own)
  next
    case False
    then have "makeStorageKey st slug b \<noteq> ''__proto__''" using pk [symmetric] by simp
    then show ?thesis using Cons.prems(3) ne2 by (auto simp: syncStep_own)
  qed
  have 3: "protoAccessor (syncStep st slug b ob1) = protoAccessor (syncStep st slug b ob2)"
  proof (cases "b = a")
    case True
    show ?thesis unfolding True
      by (rule syncStep_flag_cong) (simp_all add: Cons.prems(2,3,4) pk)
  next
    case False
    then have "makeStorageKey st slug b \<noteq> ''__proto__''" using pk [symmetric] by simp
    then show ?thesis using Cons.prems(4) by (simp add: syncStep_flag)
  qed
  show ?case using Cons.IH [OF _ 1 2 3] Cons.prems(1) by (simp add: syncLoop_Cons)
qed

lemma collisionFree_iff:
  "collisionFree st slug K = (\<forall>a\<in>set K. makeStorageKey st slug a \<notin> set K)"
  by (simp add: collisionFree_def list_all_iff)

lemma applySync_alias_cf:
  "collisionFree st slug K \<Longrightarrow> a \<in> set K \<Longrightarrow>
   applySync st slug K fm a = (if removePlainAliasKeysOnSync st then None else fm a)"
  unfolding applySync_def
  using syncLoop_alias [of "set K" st slug K a "freshObject fm"]
  by (simp add: collisionFree_iff)

lemma applySync_storage_cf:
  "collisionFree st slug K \<Longrightarrow> a \<in> set K \<Longrightarrow> makeStorageKey st slug a \<noteq> ''__proto__'' \<Longrightarrow>
   applySync st slug K fm (makeStorageKey st slug a) =
     (case fm (makeStorageKey st slug a) of None \<Rightarrow> fm a | Some v \<Rightarrow> Some v)"
  unfolding applySync_def
  using syncLoop_storage [of "set K" st slug K a "freshObject fm"]
  by (auto simp: collisionFree_iff split: option.splits)

lemma applySync_untouched:
  "k \<notin> set K \<Longrightarrow> k \<notin> makeStorageKey st slug ` set K \<Longrightarrow> applySync st slug K fm k = fm k"
  by (simp add: applySync_def syncLoop_untouched)

lemma applySync_keeps:
  "fm k = Some v \<Longrightarrow> \<not> removePlainAliasKeysOnSync st \<or> k \<notin> set K \<Longrightarrow>
   applySync st slug K fm k = Some v"
  by (simp add: applySync_def syncLoop_keeps)

lemma applySync_no_alias_cf:
  "collisionFree st slug K \<Longrightarrow> a \<in> set K \<Longrightarrow> fm a = None \<Longrightarrow>
   applySync st slug K fm (makeStorageKey st slug a) = fm (makeStorageKey st slug a)"
  unfolding applySync_def
  using syncLoop_no_alias [of "set K" st slug a K "freshObject fm"]
  by (simp add: collisionFree_iff)

lemma applySync_proto_cong:
  assumes "collisionFree st slug K" "a \<in> set K" "makeStorageKey st slug a = ''__proto__''"
    and "fm1 a = fm2 a" "fm1 ''__proto__'' = fm2 ''__proto__''"
  shows "applySync st slug K fm1 ''__proto__'' = applySync st slug K fm2 ''__proto__''"
  unfolding applySync_def
  using syncLoop_proto_cong [of "set K" st slug a K "freshObject fm1" "freshObject fm2"] assms
  by (simp add: collisionFree_iff)

lemma applySync_idem_cf:
  assumes cf: "collisionFree st slug K"
  shows "applySync st slug K (applySync st slug K fm) = applySync st slug K fm"
proof (rule ext)
  fix k
  let ?F = "applySync st slug K fm"
  consider (managedKey) "k \<in> set K"
    | (storageKey) a where "a \<in> set K" "k = makeStorageKey st slug a" "k \<noteq> ''__proto__''"
    | (protoKey) a where "a \<in> set K" "k = makeStorageKey st slug a" "k = ''__proto__''"
    | (otherKey) "k \<notin> set K" "k \<notin> makeStorageKey st slug ` set K"
    by (cases "k = ''__proto__''") blast+
  then show "applySync st slug K ?F k = ?F k"
  proof cases
    case managedKey
    then show ?thesis by (simp add: applySync_alias_cf [OF cf])
  next
    case storageKey
    then show ?thesis
      by (auto simp: applySync_alias_cf [OF cf] applySync_storage_cf [OF cf] split: option.splits)
  next
    case protoKey
    have pk: "makeStorageKey st slug a = ''__proto__''" using protoKey by simp
    have notK: "''__proto__'' \<notin> set K" using cf protoKey(1) pk by (auto simp: collisionFree_iff)
    show ?thesis
    proof (cases "?F ''__proto__''")
      case (Some u)
      then have "applySync st slug K ?F ''__proto__'' = Some u"
        using notK by (simp add: applySync_keeps)
      then show ?thesis using Some protoKey(3) by simp
    next
      case None
      have fmP: "fm ''__proto__'' = None"
      proof (cases "fm ''__proto__''")
        case None
        then show ?thesis .
      next
        case (Some v)
        then have "?F ''__proto__'' = Some v" using notK by (simp add: applySync_keeps)
        then show ?thesis using None by simp
      qed
      show ?thesis
      proof (cases "removePlainAliasKeysOnSync st")
        case True
        then have "?F a = None" using applySync_alias_cf [OF cf protoKey(1)] by simp
        then have "applySync st slug K ?F (makeStorageKey st slug a) = ?F (makeStorageKey st slug a)"
          using cf protoKey(1) by (rule applySync_no_alias_cf [rotated 2])
        then show ?thesis using pk protoKey(3) by simp
      next
        case False
        then have "?F a = fm a" using applySync_alias_cf [OF cf protoKey(1)] by simp
        then have "applySync st slug K ?F ''__proto__'' = applySync st slug K fm ''__proto__''"
          using applySync_proto_cong [OF cf protoKey(1) pk, of ?F fm] None fmP by simp
        then show ?thesis using protoKey(3) by simp
      qed
    qed
  next
    case otherKey
    then show ?thesis by (simp add: applySync_untouched)
  qed
qed

lemma restoreLoop_Cons:
  "restoreLoop st slug (a # K) ob = restoreLoop st slug K (restoreStep st slug a ob)"
  by (simp add: restoreLoop_def)

lemma restoreLoop_Nil: "restoreLoop st slug [] ob = ob"
  by (simp add: restoreLoop_def)

lemma restoreLoop_untouched:
  "k \<notin> set K \<Longrightarrow> k \<notin> makeStorageKey st slug ` set K \<Longrightarrow> own (restoreLoop st slug K ob) k = own ob k"
  by (induction K arbitrary: ob) (auto simp: restoreLoop_Cons restoreLoop_Nil restoreStep_own)

lemma restoreLoop_alias:
  assumes "\<And>b. b \<in> A \<Longrightarrow> makeStorageKey st slug b \<notin> A" "set K \<subseteq> A" "a \<in> set K"
    and np: "a \<noteq> ''__proto__''"
  shows "own (restoreLoop st slug K ob) a =
           (case own ob (makeStorageKey st slug a) of None \<Rightarrow> own ob a | Some v \<Rightarrow> Some v)"
  using assms(2,3)
proof (induction K arbitrary: ob)
  case Nil
  then show ?case by simp
next
  case (Cons b K)
  have aA: "a \<in> A" using Cons.prems by auto
  have bA: "b \<in> A" using Cons.prems by auto
  have ne: "a \<noteq> makeStorageKey st slug b" using assms(1) [OF bA] aA by auto
  have ne2: "makeStorageKey st slug a \<noteq> b" using assms(1) [OF aA] bA by auto
  show ?case
  proof (cases "a \<in> set K")
    case True
    then have "own (restoreLoop st slug K (restoreStep st slug b ob)) a =
        (case own (restoreStep st slug b ob) (makeStorageKey st slug a) of
           None \<Rightarrow> own (restoreStep st slug b ob) a | Some v \<Rightarrow> Some v)"
      using Cons.IH Cons.prems by auto
    then show ?thesis using ne ne2 np
      by (auto simp: restoreLoop_Cons restoreStep_own split: option.splits)
  next
    case False
    then have ab: "a = b" using Cons.prems by auto
    have 1: "a \<notin> makeStorageKey st slug ` set K"
      using assms(1) aA Cons.prems(1) by auto
    have "own (restoreLoop st slug K (restoreStep st slug b ob)) a = own (restoreStep st slug b ob) a"
      using False 1 by (rule restoreLoop_untouched)
    then show ?thesis using ab np
      by (auto simp: restoreLoop_Cons restoreStep_own split: option.splits)
  qed
qed

lemma restoreLoop_storage:
  assumes "\<And>b. b \<in> A \<Longrightarrow> makeStorageKey st slug b \<notin> A" "set K \<subseteq> A" "a \<in> set K"
  shows "own (restoreLoop st slug K ob) (makeStorageKey st slug a) =
           (if deleteStorageKeysOnRestore st then None else own ob (makeStorageKey st slug a))"
  using assms(2,3)
proof (induction K arbitrary: ob)
  case Nil
  then show ?case by simp
next
  case (Cons b K)
  have aA: "a \<in> A" using Cons.prems by auto
  have bA: "b \<in> A" using Cons.prems by auto
  have ne: "a \<noteq> makeStorageKey st slug b" using assms(1) [OF bA] aA by auto
  have ne2: "makeStorageKey st slug a \<noteq> b" using assms(1) [OF aA] bA by auto
  show ?case
  proof (cases "a \<in> set K")
    case True
    then have "own (restoreLoop st slug K (restoreStep st slug b ob)) (makeStorageKey st slug a) =
        (if deleteStorageKeysOnRestore st then None
         else own (restoreStep st slug b ob) (makeStorageKey st slug a))"
      using Cons.IH Cons.prems by auto
    then show ?thesis using ne ne2
      by (auto simp: restoreLoop_Cons restoreStep_own split: option.splits)
  next
    case False
    then have ab: "a = b" using Cons.prems by auto
    have 1: "makeStorageKey st slug a \<notin> makeStorageKey st slug ` set K"
      using False by auto
    have 2: "makeStorageKey st slug a \<notin> set K"
      using assms(1) [OF aA] Cons.prems(1) by auto
    have "own (restoreLoop st slug K (restoreStep st slug b ob)) (makeStorageKey st slug a)
            = own (restoreStep st slug b ob) (makeStorageKey st slug a)"
      using 2 1 by (rule restoreLoop_untouched)
    then show ?thesis using ab
      by (auto simp: restoreLoop_Cons restoreStep_own split: option.splits)
  qed
qed

section \<open>What the mutators keep, move and change\<close>

lemma templateStep_keeps:
  "own ob k = Some v \<Longrightarrow> own (templateStep st slug managed kv ob) k = Some v"
  by (auto simp: templateStep_def hasOwn_def Let_def own_setProp)

lemma templateLoop_keeps:
  "own ob k = Some v \<Longrightarrow> own (templateLoop st slug managed entries ob) k = Some v"
  unfolding templateLoop_def
  by (induction entries arbitrary: ob) (simp_all add: templateStep_keeps)

lemma applyTemplate_keeps:
  "fm k = Some v \<Longrightarrow> applyTemplate st slug managed entries fm k = Some v"
  by (simp add: applyTemplate_def templateLoop_keeps)




lemma needs_iff:
  "computeNeedsNormalization st fm slug K =
     (\<exists>a\<in>set K. fm a \<noteq> None \<and> (fm (makeStorageKey st slug a) = None \<or> removePlainAliasKeysOnSync st))"
  by (induction K) (auto simp: hasOwn_def Let_def)

lemma syncStep_id:
  "own ob a = None \<or> (own ob (makeStorageKey st slug a) \<noteq> None \<and> \<not> removePlainAliasKeysOnSync st) \<Longrightarrow>
   syncStep st slug a ob = ob"
  by (auto simp: syncStep_def hasOwn_def Let_def)

lemma syncLoop_id:
  "\<forall>a\<in>set K. own ob a = None \<or> (own ob (makeStorageKey st slug a) \<noteq> None \<and> \<not> removePlainAliasKeysOnSync st) \<Longrightarrow>
   syncLoop st slug K ob = ob"
  by (induction K) (simp_all add: syncLoop_Cons syncLoop_Nil syncStep_id)

lemma applySync_id:
  "\<forall>a\<in>set K. fm a = None \<or> (fm (makeStorageKey st slug a) \<noteq> None \<and> \<not> removePlainAliasKeysOnSync st) \<Longrightarrow>
   applySync st slug K fm = fm"
  using syncLoop_id [of K "freshObject fm" st slug] by (simp add: applySync_def)

lemma syncLoop_creates:
  "\<not> removePlainAliasKeysOnSync st \<Longrightarrow> a \<in> set K \<Longrightarrow> own ob a \<noteq> None \<Longrightarrow>
   makeStorageKey st slug a \<noteq> ''__proto__'' \<Longrightarrow>
   own (syncLoop st slug K ob) (makeStorageKey st slug a) \<noteq> None"
proof (induction K arbitrary: ob)
  case Nil
  then show ?case by simp
next
  case (Cons b K)
  show ?case
  proof (cases "b = a")
    case True
    obtain v where "own (syncStep st slug a ob) (makeStorageKey st slug a) = Some v"
      using Cons.prems True by (cases "own ob (makeStorageKey st slug a)") (auto simp: syncStep_own)
    then show ?thesis using True Cons.prems(1) by (simp add: syncLoop_Cons syncLoop_keeps)
  next
    case False
    have "own (syncStep st slug b ob) a \<noteq> None"
      using Cons.prems False by (auto simp: syncStep_own split: option.splits)
    then show ?thesis using Cons.IH Cons.prems False by (simp add: syncLoop_Cons)
  qed
qed

lemma syncStep_short_absent:
  assumes "removePlainAliasKeysOnSync st" "b \<in> A"
    and inv: "\<forall>c\<in>A. length c < n \<longrightarrow> own ob c = None"
  shows "\<forall>c\<in>A. length c < n \<longrightarrow> own (syncStep st slug b ob) c = None"
proof (intro ballI impI)
  fix c assume c: "c \<in> A" "length c < n"
  then have fc: "own ob c = None" using inv by simp
  show "own (syncStep st slug b ob) c = None"
  proof (cases "c = makeStorageKey st slug b")
    case True
    then have "length b < n" using c makeStorageKey_longer [of b st slug] by simp
    then have "own ob b = None" using inv assms(2) by simp
    then show ?thesis using fc True by (simp add: syncStep_own)
  next
    case False
    then show ?thesis using fc by (auto simp: syncStep_own)
  qed
qed

lemma syncStep_stays_absent:
  assumes "removePlainAliasKeysOnSync st" "b \<in> A"
    and inv: "\<forall>c\<in>A. length c < length k \<longrightarrow> own ob c = None"
    and "own ob k = None"
  shows "own (syncStep st slug b ob) k = None"
proof (cases "k = makeStorageKey st slug b")
  case True
  then have "length b < length k" using makeStorageKey_longer [of b st slug] by simp
  then have "own ob b = None" using inv assms(2) by simp
  then show ?thesis using assms(4) True by (simp add: syncStep_own)
next
  case False
  then show ?thesis using assms(4) by (auto simp: syncStep_own)
qed

lemma syncLoop_stays_absent:
  assumes "removePlainAliasKeysOnSync st"
  shows "set K \<subseteq> A \<Longrightarrow> \<forall>c\<in>A. length c < length k \<longrightarrow> own ob c = None \<Longrightarrow> own ob k = None \<Longrightarrow>
         own (syncLoop st slug K ob) k = None"
proof (induction K arbitrary: ob)
  case Nil
  then show ?case by (simp add: syncLoop_Nil)
next
  case (Cons b K)
  have bA: "b \<in> A" using Cons.prems by simp
  have 1: "\<forall>c\<in>A. length c < length k \<longrightarrow> own (syncStep st slug b ob) c = None"
    using syncStep_short_absent [OF assms bA Cons.prems(2)] .
  have 2: "own (syncStep st slug b ob) k = None"
    using syncStep_stays_absent [OF assms bA Cons.prems(2,3)] .
  show ?case using Cons.IH [OF _ 1 2] Cons.prems(1) by (simp add: syncLoop_Cons)
qed

lemma syncLoop_shortest_deleted:
  assumes "removePlainAliasKeysOnSync st"
  shows "set K \<subseteq> A \<Longrightarrow> \<forall>c\<in>A. length c < length a \<longrightarrow> own ob c = None \<Longrightarrow> a \<in> set K \<Longrightarrow>
         own (syncLoop st slug K ob) a = None"
proof (induction K arbitrary: ob)
  case Nil
  then show ?case by simp
next
  case (Cons b K)
  have bA: "b \<in> A" using Cons.prems by simp
  have 1: "\<forall>c\<in>A. length c < length a \<longrightarrow> own (syncStep st slug b ob) c = None"
    using syncStep_short_absent [OF assms bA Cons.prems(2)] .
  show ?case
  proof (cases "b = a")
    case True
    have "own (syncStep st slug b ob) a = None" using True assms by (simp add: syncStep_own)
    then show ?thesis
      using syncLoop_stays_absent [OF assms _ 1] Cons.prems(1) by (simp add: syncLoop_Cons)
  next
    case False
    then have "a \<in> set K" using Cons.prems by simp
    then show ?thesis using Cons.IH [OF _ 1] Cons.prems(1) by (simp add: syncLoop_Cons)
  qed
qed

lemma applySync_changes:
  assumes "computeNeedsNormalization st fm slug K"
    and "removePlainAliasKeysOnSync st \<or> (\<forall>a\<in>set K. makeStorageKey st slug a \<noteq> ''__proto__'')"
  shows "applySync st slug K fm \<noteq> fm"
proof (cases "removePlainAliasKeysOnSync st")
  case False
  then obtain a where a: "a \<in> set K" "fm a \<noteq> None" "fm (makeStorageKey st slug a) = None"
    using assms by (auto simp: needs_iff)
  have "makeStorageKey st slug a \<noteq> ''__proto__''" using assms(2) False a(1) by simp
  then have "applySync st slug K fm (makeStorageKey st slug a) \<noteq> None"
    using syncLoop_creates [of st a K "freshObject fm" slug] False a(1,2)
    by (simp add: applySync_def)
  then show ?thesis using a(3) by auto
next
  case True
  then have "\<exists>a. a \<in> set K \<and> fm a \<noteq> None" using assms by (auto simp: needs_iff)
  then obtain a where a: "a \<in> set K \<and> fm a \<noteq> None"
    and least: "\<forall>y. y \<in> set K \<and> fm y \<noteq> None \<longrightarrow> length a \<le> length y"
    using ex_has_least_nat [of "\<lambda>a. a \<in> set K \<and> fm a \<noteq> None" _ length] by blast
  have inv: "\<forall>c\<in>set K. length c < length a \<longrightarrow> own (freshObject fm) c = None"
    using least by fastforce
  have "applySync st slug K fm a = None"
    using syncLoop_shortest_deleted [OF True _ inv] a by (simp add: applySync_def)
  then show ?thesis using a by auto
qed

lemma applySync_unchanged:
  "\<not> computeNeedsNormalization st fm slug K \<Longrightarrow> applySync st slug K fm = fm"
  by (intro applySync_id) (auto simp: needs_iff)

section \<open>The claims about the sync, restore and template mutators\<close>

text \<open>The defining equations that evaluate the mutators on concrete inputs.\<close>

lemmas evalDefs =
  applySync_def syncLoop_def syncStep_def restoreAliases_def restoreLoop_def restoreStep_def
  applyTemplate_def templateLoop_def templateStep_def addManagedProperty_def
  freshObject_def setProp_def getProp_def deleteProp_def
  makeStorageKey_def storageSep_def trim_def isSpace_def hasOwn_def
  getManagedAliasKeys_def parseManagedKeys_def DEFAULT_SETTINGS_def Let_def

text \<open>
  Claim C1 (as amended). A storage key that already exists is the source of truth: when the
  storage key computed for a managed alias key holds \<open>v\<close> before, it still holds \<open>v\<close>
  after the template mutator, unconditionally, and it still holds \<open>v\<close> after the sync
  mutator provided the removal policy is off or that storage key is not itself listed as a
  managed alias key.
\<close>

theorem existing_storage_key_kept:
  assumes "a \<in> set managed"
    and "fm (makeStorageKey st slug a) = Some v"
  shows "(\<not> removePlainAliasKeysOnSync st \<or> makeStorageKey st slug a \<notin> set managed
            \<longrightarrow> applySync st slug managed fm (makeStorageKey st slug a) = Some v)
       \<and> applyTemplate st slug managed entries fm (makeStorageKey st slug a) = Some v"
  using assms by (simp add: applySync_keeps applyTemplate_keeps)

theorem existing_storage_key_kept_witness:
  "''priority'' \<in> set (getManagedAliasKeys DEFAULT_SETTINGS)
   \<and> makeStorageKey DEFAULT_SETTINGS ''projects'' ''priority'' \<notin> set (getManagedAliasKeys DEFAULT_SETTINGS)
   \<and> applySync DEFAULT_SETTINGS ''projects'' (getManagedAliasKeys DEFAULT_SETTINGS)
     [''projects__priority'' \<mapsto> JStr ''high'', ''priority'' \<mapsto> JStr ''low'']
     ''projects__priority'' = Some (JStr ''high'')
   \<and> applyTemplate DEFAULT_SETTINGS ''projects'' (getManagedAliasKeys DEFAULT_SETTINGS)
     [(''priority'', JStr ''medium'')]
     [''projects__priority'' \<mapsto> JStr ''high'', ''priority'' \<mapsto> JStr ''low'']
     ''projects__priority'' = Some (JStr ''high'')"
  using existing_storage_key_kept [of "''priority''" "getManagedAliasKeys DEFAULT_SETTINGS"
      "[''projects__priority'' \<mapsto> JStr ''high'', ''priority'' \<mapsto> JStr ''low'']"
      DEFAULT_SETTINGS "''projects''" "JStr ''high''" "[(''priority'', JStr ''medium'')]"]
  by (simp add: getManagedAliasKeys_def parseManagedKeys_def makeStorageKey_def storageSep_def
        trim_def isSpace_def DEFAULT_SETTINGS_def)

theorem storage_key_overwritten_counterexample:
  "''priority'' \<in> set (getManagedAliasKeys (DEFAULT_SETTINGS\<lparr>managedAliasKeys := ''projects__priority,priority''\<rparr>))
   \<and> [''projects__priority'' \<mapsto> JStr ''high'', ''priority'' \<mapsto> JStr ''low'']
        (makeStorageKey (DEFAULT_SETTINGS\<lparr>managedAliasKeys := ''projects__priority,priority''\<rparr>)
           ''projects'' ''priority'') = Some (JStr ''high'')
   \<and> applySync (DEFAULT_SETTINGS\<lparr>managedAliasKeys := ''projects__priority,priority''\<rparr>) ''projects''
        (getManagedAliasKeys (DEFAULT_SETTINGS\<lparr>managedAliasKeys := ''projects__priority,priority''\<rparr>))
        [''projects__priority'' \<mapsto> JStr ''high'', ''priority'' \<mapsto> JStr ''low'']
        (makeStorageKey (DEFAULT_SETTINGS\<lparr>managedAliasKeys := ''projects__priority,priority''\<rparr>)
           ''projects'' ''priority'') = Some (JStr ''low'')"
  by (simp add: evalDefs)

text \<open>
  Claim C2 (as amended). The sync mutator is idempotent on every frontmatter map, for every
  slug, settings and managed-key list that is free of collisions: applying it twice gives
  the map that applying it once gives.
\<close>

theorem applySync_idempotent:
  assumes "collisionFree st slug K"
  shows "applySync st slug K (applySync st slug K fm) = applySync st slug K fm"
  using assms by (rule applySync_idem_cf)

theorem applySync_idempotent_witness:
  "collisionFree DEFAULT_SETTINGS ''projects'' (getManagedAliasKeys DEFAULT_SETTINGS)
   \<and> applySync DEFAULT_SETTINGS ''projects'' (getManagedAliasKeys DEFAULT_SETTINGS)
       (applySync DEFAULT_SETTINGS ''projects'' (getManagedAliasKeys DEFAULT_SETTINGS)
          [''priority'' \<mapsto> JStr ''high'', ''status'' \<mapsto> JStr ''in progress''])
     = applySync DEFAULT_SETTINGS ''projects'' (getManagedAliasKeys DEFAULT_SETTINGS)
          [''priority'' \<mapsto> JStr ''high'', ''status'' \<mapsto> JStr ''in progress'']"
proof -
  have cf: "collisionFree DEFAULT_SETTINGS ''projects'' (getManagedAliasKeys DEFAULT_SETTINGS)"
    by (simp add: collisionFree_def evalDefs)
  show ?thesis using cf applySync_idempotent [OF cf] by simp
qed

theorem applySync_not_idempotent_counterexample:
  "applySync (DEFAULT_SETTINGS\<lparr>managedAliasKeys := ''projects__priority,priority''\<rparr>) ''projects''
     (getManagedAliasKeys (DEFAULT_SETTINGS\<lparr>managedAliasKeys := ''projects__priority,priority''\<rparr>))
     (applySync (DEFAULT_SETTINGS\<lparr>managedAliasKeys := ''projects__priority,priority''\<rparr>) ''projects''
        (getManagedAliasKeys (DEFAULT_SETTINGS\<lparr>managedAliasKeys := ''projects__priority,priority''\<rparr>))
        [''projects__priority'' \<mapsto> JStr ''high'', ''priority'' \<mapsto> JStr ''low''])
   \<noteq> applySync (DEFAULT_SETTINGS\<lparr>managedAliasKeys := ''projects__priority,priority''\<rparr>) ''projects''
        (getManagedAliasKeys (DEFAULT_SETTINGS\<lparr>managedAliasKeys := ''projects__priority,priority''\<rparr>))
        [''projects__priority'' \<mapsto> JStr ''high'', ''priority'' \<mapsto> JStr ''low'']"
proof
  assume "applySync (DEFAULT_SETTINGS\<lparr>managedAliasKeys := ''projects__priority,priority''\<rparr>) ''projects''
     (getManagedAliasKeys (DEFAULT_SETTINGS\<lparr>managedAliasKeys := ''projects__priority,priority''\<rparr>))
     (applySync (DEFAULT_SETTINGS\<lparr>managedAliasKeys := ''projects__priority,priority''\<rparr>) ''projects''
        (getManagedAliasKeys (DEFAULT_SETTINGS\<lparr>managedAliasKeys := ''projects__priority,priority''\<rparr>))
        [''projects__priority'' \<mapsto> JStr ''high'', ''priority'' \<mapsto> JStr ''low''])
   = applySync (DEFAULT_SETTINGS\<lparr>managedAliasKeys := ''projects__priority,priority''\<rparr>) ''projects''
        (getManagedAliasKeys (DEFAULT_SETTINGS\<lparr>managedAliasKeys := ''projects__priority,priority''\<rparr>))
        [''projects__priority'' \<mapsto> JStr ''high'', ''priority'' \<mapsto> JStr ''low'']"
  then have "applySync (DEFAULT_SETTINGS\<lparr>managedAliasKeys := ''projects__priority,priority''\<rparr>) ''projects''
     (getManagedAliasKeys (DEFAULT_SETTINGS\<lparr>managedAliasKeys := ''projects__priority,priority''\<rparr>))
     (applySync (DEFAULT_SETTINGS\<lparr>managedAliasKeys := ''projects__priority,priority''\<rparr>) ''projects''
        (getManagedAliasKeys (DEFAULT_SETTINGS\<lparr>managedAliasKeys := ''projects__priority,priority''\<rparr>))
        [''projects__priority'' \<mapsto> JStr ''high'', ''priority'' \<mapsto> JStr ''low'']) ''projects__priority''
   = applySync (DEFAULT_SETTINGS\<lparr>managedAliasKeys := ''projects__priority,priority''\<rparr>) ''projects''
        (getManagedAliasKeys (DEFAULT_SETTINGS\<lparr>managedAliasKeys := ''projects__priority,priority''\<rparr>))
        [''projects__priority'' \<mapsto> JStr ''high'', ''priority'' \<mapsto> JStr ''low''] ''projects__priority''"
    by (rule fun_cong)
  then show False by (simp add: evalDefs)
qed

text \<open>Collisions break idempotence with the removal policy off as well: a second run moves
  on the storage key that the first run created.\<close>

lemma idempotent_collision_removal_off_example:
  "applySync (DEFAULT_SETTINGS\<lparr>removePlainAliasKeysOnSync := False\<rparr>) ''projects''
      [''projects__priority'', ''priority''] [''priority'' \<mapsto> JStr ''high'']
      ''projects__projects__priority'' = None
   \<and> applySync (DEFAULT_SETTINGS\<lparr>removePlainAliasKeysOnSync := False\<rparr>) ''projects''
      [''projects__priority'', ''priority'']
      (applySync (DEFAULT_SETTINGS\<lparr>removePlainAliasKeysOnSync := False\<rparr>) ''projects''
         [''projects__priority'', ''priority''] [''priority'' \<mapsto> JStr ''high''])
      ''projects__projects__priority'' = Some (JStr ''high'')"
  by (simp add: evalDefs)

text \<open>
  Claim C3 (as amended). With removal on sync and deletion on restore both enabled and a
  managed-key list free of collisions, sync followed by restore removes the storage key of
  every managed key that was present as an alias key before the sync, and leaves under the
  alias key the value the storage key held before the sync when it existed, and the alias
  key's own earlier value otherwise; this for every managed key such that neither the
  alias key nor its storage key is \<open>__proto__\<close>.
\<close>

theorem sync_restore_round_trip:
  assumes "collisionFree st slug K"
    and "removePlainAliasKeysOnSync st" and "deleteStorageKeysOnRestore st"
    and "a \<in> set K" and "fm a = Some v"
    and "a \<noteq> ''__proto__''" and "makeStorageKey st slug a \<noteq> ''__proto__''"
  shows "restoreAliases st slug K (applySync st slug K fm) (makeStorageKey st slug a) = None
       \<and> restoreAliases st slug K (applySync st slug K fm) a =
           (case fm (makeStorageKey st slug a) of None \<Rightarrow> Some v | Some u \<Rightarrow> Some u)"
proof -
  have cf: "\<And>b. b \<in> set K \<Longrightarrow> makeStorageKey st slug b \<notin> set K"
    using assms(1) by (simp add: collisionFree_iff)
  have 1: "restoreAliases st slug K (applySync st slug K fm) (makeStorageKey st slug a) = None"
    using restoreLoop_storage [of "set K" st slug K a, OF cf _ assms(4)] assms(3)
    by (simp add: restoreAliases_def)
  have 2: "applySync st slug K fm (makeStorageKey st slug a)
             = (case fm (makeStorageKey st slug a) of None \<Rightarrow> Some v | Some u \<Rightarrow> Some u)"
    using applySync_storage_cf [OF assms(1,4,7)] assms(5) by (simp split: option.splits)
  have 3: "restoreAliases st slug K (applySync st slug K fm) a
             = (case applySync st slug K fm (makeStorageKey st slug a) of
                  None \<Rightarrow> applySync st slug K fm a | Some u \<Rightarrow> Some u)"
    using restoreLoop_alias [of "set K" st slug K a "freshObject (applySync st slug K fm)",
        OF cf _ assms(4,6)]
    by (simp add: restoreAliases_def split: option.splits)
  show ?thesis using 1 2 3 by (simp split: option.splits)
qed

theorem sync_restore_round_trip_witness:
  "collisionFree (DEFAULT_SETTINGS\<lparr>deleteStorageKeysOnRestore := True\<rparr>) ''projects''
      (getManagedAliasKeys DEFAULT_SETTINGS)
   \<and> ''priority'' \<noteq> ''__proto__''
   \<and> makeStorageKey (DEFAULT_SETTINGS\<lparr>deleteStorageKeysOnRestore := True\<rparr>) ''projects'' ''priority''
        \<noteq> ''__proto__''
   \<and> restoreAliases (DEFAULT_SETTINGS\<lparr>deleteStorageKeysOnRestore := True\<rparr>) ''projects''
       (getManagedAliasKeys DEFAULT_SETTINGS)
       (applySync (DEFAULT_SETTINGS\<lparr>deleteStorageKeysOnRestore := True\<rparr>) ''projects''
          (getManagedAliasKeys DEFAULT_SETTINGS)
          [''priority'' \<mapsto> JStr ''high'', ''status'' \<mapsto> JStr ''in progress''])
       ''projects__priority'' = None
   \<and> restoreAliases (DEFAULT_SETTINGS\<lparr>deleteStorageKeysOnRestore := True\<rparr>) ''projects''
       (getManagedAliasKeys DEFAULT_SETTINGS)
       (applySync (DEFAULT_SETTINGS\<lparr>deleteStorageKeysOnRestore := True\<rparr>) ''projects''
          (getManagedAliasKeys DEFAULT_SETTINGS)
          [''priority'' \<mapsto> JStr ''high'', ''status'' \<mapsto> JStr ''in progress''])
       ''priority'' = Some (JStr ''high'')"
proof -
  have cf: "collisionFree (DEFAULT_SETTINGS\<lparr>deleteStorageKeysOnRestore := True\<rparr>) ''projects''
      (getManagedAliasKeys DEFAULT_SETTINGS)"
    by (simp add: collisionFree_def evalDefs)
  have r: "removePlainAliasKeysOnSync (DEFAULT_SETTINGS\<lparr>deleteStorageKeysOnRestore := True\<rparr>)"
    by (simp add: DEFAULT_SETTINGS_def)
  have d: "deleteStorageKeysOnRestore (DEFAULT_SETTINGS\<lparr>deleteStorageKeysOnRestore := True\<rparr>)"
    by simp
  have m: "''priority'' \<in> set (getManagedAliasKeys DEFAULT_SETTINGS)"
    by (simp add: evalDefs)
  have p: "[''priority'' \<mapsto> JStr ''high'', ''status'' \<mapsto> JStr ''in progress''] ''priority''
             = Some (JStr ''high'')"
    by simp
  have n1: "''priority'' \<noteq> ''__proto__''" by simp
  have n2: "makeStorageKey (DEFAULT_SETTINGS\<lparr>deleteStorageKeysOnRestore := True\<rparr>) ''projects'' ''priority''
        \<noteq> ''__proto__''"
    by (simp add: evalDefs)
  show ?thesis
    using cf n1 n2 sync_restore_round_trip [where v = "JStr ''high''"
        and fm = "[''priority'' \<mapsto> JStr ''high'', ''status'' \<mapsto> JStr ''in progress'']", OF cf r d m p n1 n2]
    by (simp add: makeStorageKey_def storageSep_def trim_def isSpace_def DEFAULT_SETTINGS_def)
qed

theorem round_trip_loses_alias_counterexample:
  "''priority'' \<in> set (getManagedAliasKeys DEFAULT_SETTINGS)
   \<and> [''projects__priority'' \<mapsto> JStr ''high'', ''priority'' \<mapsto> JStr ''low''] ''priority''
       = Some (JStr ''low'')
   \<and> restoreAliases (DEFAULT_SETTINGS\<lparr>deleteStorageKeysOnRestore := True\<rparr>) ''projects''
       (getManagedAliasKeys DEFAULT_SETTINGS)
       (applySync (DEFAULT_SETTINGS\<lparr>deleteStorageKeysOnRestore := True\<rparr>) ''projects''
          (getManagedAliasKeys DEFAULT_SETTINGS)
          [''projects__priority'' \<mapsto> JStr ''high'', ''priority'' \<mapsto> JStr ''low''])
       ''priority'' = Some (JStr ''high'')"
  by (simp add: evalDefs)

text \<open>The round trip needs the managed keys free of collisions: otherwise restore finds the
  value moved on to the storage key of the storage key.\<close>

lemma round_trip_collision_example:
  "collisionFree (DEFAULT_SETTINGS\<lparr>deleteStorageKeysOnRestore := True\<rparr>) ''projects''
      [''priority'', ''projects__priority''] = False
   \<and> [''priority'' \<mapsto> JStr ''high''] ''priority'' = Some (JStr ''high'')
   \<and> restoreAliases (DEFAULT_SETTINGS\<lparr>deleteStorageKeysOnRestore := True\<rparr>) ''projects''
       [''priority'', ''projects__priority'']
       (applySync (DEFAULT_SETTINGS\<lparr>deleteStorageKeysOnRestore := True\<rparr>) ''projects''
          [''priority'', ''projects__priority''] [''priority'' \<mapsto> JStr ''high''])
       ''priority'' = None"
  by (simp add: collisionFree_def evalDefs)

text \<open>It also needs the two keys to be ordinary property names: a managed alias key
  \<open>__proto__\<close> is moved to its storage key by sync, but the assignment that restore makes
  to it reaches the accessor of \<open>Object.prototype\<close> and the value is lost with the storage
  key; and a value moved to the storage key \<open>__proto__\<close> (separator \<open>_\<close>, slug \<open>_\<close>,
  alias key \<open>proto__\<close>) is lost by sync already.\<close>

lemma round_trip_proto_example:
  "collisionFree (DEFAULT_SETTINGS\<lparr>deleteStorageKeysOnRestore := True\<rparr>) ''projects'' [''__proto__'']
   \<and> [''__proto__'' \<mapsto> JStr ''x''] ''__proto__'' = Some (JStr ''x'')
   \<and> applySync (DEFAULT_SETTINGS\<lparr>deleteStorageKeysOnRestore := True\<rparr>) ''projects'' [''__proto__'']
        [''__proto__'' \<mapsto> JStr ''x''] = [''projects____proto__'' \<mapsto> JStr ''x'']
   \<and> restoreAliases (DEFAULT_SETTINGS\<lparr>deleteStorageKeysOnRestore := True\<rparr>) ''projects'' [''__proto__'']
        [''projects____proto__'' \<mapsto> JStr ''x''] = Map.empty
   \<and> makeStorageKey (DEFAULT_SETTINGS\<lparr>storageSeparator := ''_''\<rparr>) ''_'' ''proto__'' = ''__proto__''
   \<and> applySync (DEFAULT_SETTINGS\<lparr>storageSeparator := ''_''\<rparr>) ''_'' [''proto__'']
        [''proto__'' \<mapsto> JStr ''x''] = Map.empty"
  by (simp add: collisionFree_def evalDefs)

text \<open>
  Claim C4 (as amended). The pre-check never misses a change: whenever the sync mutator,
  run on the same frontmatter map with the same slug, managed keys and settings, returns a
  map different from its input, \<open>computeNeedsNormalization\<close> returns true. It agrees
  exactly with the mutator when the removal policy is on or no managed key has the storage
  key \<open>__proto__\<close>.
\<close>

theorem precheck_agrees_with_sync:
  "(applySync st slug managed fm \<noteq> fm \<longrightarrow> computeNeedsNormalization st fm slug managed)
   \<and> (removePlainAliasKeysOnSync st \<or> (\<forall>a\<in>set managed. makeStorageKey st slug a \<noteq> ''__proto__'')
        \<longrightarrow> computeNeedsNormalization st fm slug managed = (applySync st slug managed fm \<noteq> fm))"
  using applySync_unchanged [of st fm slug managed] applySync_changes [of st fm slug managed]
  by blast

theorem precheck_agrees_with_sync_witness:
  "removePlainAliasKeysOnSync DEFAULT_SETTINGS
   \<and> computeNeedsNormalization DEFAULT_SETTINGS
      [''projects__priority'' \<mapsto> JStr ''high'', ''priority'' \<mapsto> JStr ''low'']
      ''projects'' (getManagedAliasKeys DEFAULT_SETTINGS)
   \<and> applySync DEFAULT_SETTINGS ''projects'' (getManagedAliasKeys DEFAULT_SETTINGS)
        [''projects__priority'' \<mapsto> JStr ''high'', ''priority'' \<mapsto> JStr ''low'']
       \<noteq> [''projects__priority'' \<mapsto> JStr ''high'', ''priority'' \<mapsto> JStr ''low'']
   \<and> \<not> computeNeedsNormalization DEFAULT_SETTINGS
      [''projects__priority'' \<mapsto> JStr ''high'', ''tags'' \<mapsto> JArr [JStr ''x'']]
      ''projects'' (getManagedAliasKeys DEFAULT_SETTINGS)
   \<and> applySync DEFAULT_SETTINGS ''projects'' (getManagedAliasKeys DEFAULT_SETTINGS)
        [''projects__priority'' \<mapsto> JStr ''high'', ''tags'' \<mapsto> JArr [JStr ''x'']]
       = [''projects__priority'' \<mapsto> JStr ''high'', ''tags'' \<mapsto> JArr [JStr ''x'']]"
proof -
  have 0: "removePlainAliasKeysOnSync DEFAULT_SETTINGS"
    by (simp add: DEFAULT_SETTINGS_def)
  have 1: "computeNeedsNormalization DEFAULT_SETTINGS
      [''projects__priority'' \<mapsto> JStr ''high'', ''priority'' \<mapsto> JStr ''low'']
      ''projects'' (getManagedAliasKeys DEFAULT_SETTINGS)"
    by (simp add: evalDefs)
  have 2: "\<not> computeNeedsNormalization DEFAULT_SETTINGS
      [''projects__priority'' \<mapsto> JStr ''high'', ''tags'' \<mapsto> JArr [JStr ''x'']]
      ''projects'' (getManagedAliasKeys DEFAULT_SETTINGS)"
    by (simp add: evalDefs)
  show ?thesis
    using 0 1 2
      precheck_agrees_with_sync [of DEFAULT_SETTINGS "''projects''"
        "getManagedAliasKeys DEFAULT_SETTINGS"
        "[''projects__priority'' \<mapsto> JStr ''high'', ''priority'' \<mapsto> JStr ''low'']"]
      precheck_agrees_with_sync [of DEFAULT_SETTINGS "''projects''"
        "getManagedAliasKeys DEFAULT_SETTINGS"
        "[''projects__priority'' \<mapsto> JStr ''high'', ''tags'' \<mapsto> JArr [JStr ''x'']]"]
    by blast
qed

theorem precheck_true_without_change_counterexample:
  "getManagedAliasKeys (DEFAULT_SETTINGS\<lparr>managedAliasKeys := ''proto__'', storageSeparator := ''_'',
        removePlainAliasKeysOnSync := False\<rparr>) = [''proto__'']
   \<and> makeStorageKey (DEFAULT_SETTINGS\<lparr>managedAliasKeys := ''proto__'', storageSeparator := ''_'',
        removePlainAliasKeysOnSync := False\<rparr>) ''_'' ''proto__'' = ''__proto__''
   \<and> computeNeedsNormalization (DEFAULT_SETTINGS\<lparr>managedAliasKeys := ''proto__'', storageSeparator := ''_'',
        removePlainAliasKeysOnSync := False\<rparr>) [''proto__'' \<mapsto> JStr ''x''] ''_'' [''proto__'']
   \<and> applySync (DEFAULT_SETTINGS\<lparr>managedAliasKeys := ''proto__'', storageSeparator := ''_'',
        removePlainAliasKeysOnSync := False\<rparr>) ''_'' [''proto__''] [''proto__'' \<mapsto> JStr ''x'']
       = [''proto__'' \<mapsto> JStr ''x'']"
  by (simp add: evalDefs)




text \<open>A storage key that is itself a managed alias key is moved on in the same run.\<close>

lemma sync_moves_collision_example:
  "[''priority'' \<mapsto> JNull] ''priority'' = Some JNull
   \<and> [''priority'' \<mapsto> JNull] (makeStorageKey DEFAULT_SETTINGS ''projects'' ''priority'') = None
   \<and> makeStorageKey DEFAULT_SETTINGS ''projects'' ''priority'' \<in> set [''priority'', ''projects__priority'']
   \<and> applySync DEFAULT_SETTINGS ''projects'' [''priority'', ''projects__priority'']
        [''priority'' \<mapsto> JNull] (makeStorageKey DEFAULT_SETTINGS ''projects'' ''priority'') = None"
  by (simp add: evalDefs)

section \<open>Rule resolution\<close>

lemma normalizePrefix_empty_iff: "normalizePrefix f = [] \<longleftrightarrow> trim f = []"
  by (simp add: normalizePrefix_def Let_def replaceBackslashes_def)

lemma slugLoop_resolve:
  "slugLoop path rules =
     map_option (\<lambda>rule. trim (namespaceSlug rule))
       (find (\<lambda>rule. prefix (normalizePrefix (folderPrefix rule)) path)
             (filter (\<lambda>rule. \<not> inertRule rule) rules))"
  by (induction rules) (auto simp: Let_def inertRule_def normalizePrefix_empty_iff)

lemma ruleLoop_resolve:
  "ruleLoop path rules =
     find (\<lambda>rule. prefix (normalizePrefix (folderPrefix rule)) path)
          (filter (\<lambda>rule. \<not> inertRule rule) rules)"
  by (induction rules) (auto simp: Let_def inertRule_def normalizePrefix_empty_iff)

lemma getRuleForFile_resolve: "getRuleForFile st filePath = resolveRule filePath (folderRules st)"
  by (simp add: getRuleForFile_def resolveRule_def ruleLoop_resolve)

lemma getNamespaceSlug_resolve:
  "getNamespaceSlugForFile st filePath =
     map_option (\<lambda>rule. trim (namespaceSlug rule)) (resolveRule filePath (folderRules st))"
  by (simp add: getNamespaceSlugForFile_def resolveRule_def slugLoop_resolve)

lemma getNamespaceSlug_first:
  assumes "folderRules st = ra # rest" "\<not> inertRule ra"
    "prefix (normalizePrefix (folderPrefix ra)) (replaceBackslashes filePath)"
  shows "getNamespaceSlugForFile st filePath = Some (trim (namespaceSlug ra))"
  using assms by (simp add: getNamespaceSlug_resolve resolveRule_def)

text \<open>The defining equations that evaluate rule resolution on concrete inputs.\<close>

lemmas ruleDefs =
  resolveRule_def inertRule_def normalizePrefix_def replaceBackslashes_def trim_def isSpace_def
  plainRule_def Let_def

text \<open>
  Claim C6. Rule resolution is first match wins over the ordered rule list: the slug returned
  for a path is the trimmed slug of the first rule, among those whose trimmed folder prefix
  and trimmed slug are both non-empty, whose normalized prefix is a literal prefix of the
  path with its separators normalized, and none when there is no such rule. In particular a
  rule \<open>a/\<close> listed before a rule \<open>a/b/\<close> wins on every path under \<open>a/b/\<close>.
\<close>

theorem first_matching_rule_wins:
  "getNamespaceSlugForFile st filePath =
     map_option (\<lambda>rule. trim (namespaceSlug rule)) (resolveRule filePath (folderRules st))
   \<and> (folderRules st = ra # mid @ rb # rest
        \<and> normalizePrefix (folderPrefix ra) = ''a/'' \<and> trim (namespaceSlug ra) \<noteq> []
        \<and> normalizePrefix (folderPrefix rb) = ''a/b/'' \<and> trim (namespaceSlug rb) \<noteq> []
        \<and> prefix ''a/b/'' (replaceBackslashes filePath)
      \<longrightarrow> getNamespaceSlugForFile st filePath = Some (trim (namespaceSlug ra)))"
proof (intro conjI impI)
  show "getNamespaceSlugForFile st filePath =
     map_option (\<lambda>rule. trim (namespaceSlug rule)) (resolveRule filePath (folderRules st))"
    by (rule getNamespaceSlug_resolve)
next
  assume h: "folderRules st = ra # mid @ rb # rest
        \<and> normalizePrefix (folderPrefix ra) = ''a/'' \<and> trim (namespaceSlug ra) \<noteq> []
        \<and> normalizePrefix (folderPrefix rb) = ''a/b/'' \<and> trim (namespaceSlug rb) \<noteq> []
        \<and> prefix ''a/b/'' (replaceBackslashes filePath)"
  then have "trim (folderPrefix ra) \<noteq> []"
    using normalizePrefix_empty_iff [of "folderPrefix ra"] by auto
  then have ni: "\<not> inertRule ra" using h by (simp add: inertRule_def)
  have "prefix ''a/'' ''a/b/''" by simp
  then have "prefix ''a/'' (replaceBackslashes filePath)"
    using h prefix_order.trans by blast
  then show "getNamespaceSlugForFile st filePath = Some (trim (namespaceSlug ra))"
    using h ni getNamespaceSlug_first [of st ra "mid @ rb # rest" filePath] by simp
qed

theorem first_matching_rule_wins_witness:
  "getNamespaceSlugForFile
     (DEFAULT_SETTINGS\<lparr>folderRules :=
        [plainRule '' '' ''blank'', plainRule ''a'' '' general '', plainRule ''a/b/'' ''specific'']\<rparr>)
     (''a'' @ [CHR 0x5C] @ ''b/note.md'') = Some ''general''
   \<and> resolveRule (''a'' @ [CHR 0x5C] @ ''b/note.md'')
        [plainRule '' '' ''blank'', plainRule ''a'' '' general '', plainRule ''a/b/'' ''specific'']
       = Some (plainRule ''a'' '' general '')
   \<and> getNamespaceSlugForFile
     (DEFAULT_SETTINGS\<lparr>folderRules := [plainRule ''a/'' ''general'', plainRule ''a/b/'' ''specific'']\<rparr>)
     ''a/b/note.md'' = Some ''general''"
proof -
  have r: "resolveRule (''a'' @ [CHR 0x5C] @ ''b/note.md'')
        [plainRule '' '' ''blank'', plainRule ''a'' '' general '', plainRule ''a/b/'' ''specific'']
       = Some (plainRule ''a'' '' general '')"
    by (simp add: ruleDefs)
  have a: "getNamespaceSlugForFile
     (DEFAULT_SETTINGS\<lparr>folderRules :=
        [plainRule '' '' ''blank'', plainRule ''a'' '' general '', plainRule ''a/b/'' ''specific'']\<rparr>)
     (''a'' @ [CHR 0x5C] @ ''b/note.md'') = Some ''general''"
    using r first_matching_rule_wins [THEN conjunct1, of
        "DEFAULT_SETTINGS\<lparr>folderRules :=
          [plainRule '' '' ''blank'', plainRule ''a'' '' general '', plainRule ''a/b/'' ''specific'']\<rparr>"
        "''a'' @ [CHR 0x5C] @ ''b/note.md''"]
    by (simp add: plainRule_def trim_def isSpace_def)
  have b: "getNamespaceSlugForFile
     (DEFAULT_SETTINGS\<lparr>folderRules := [plainRule ''a/'' ''general'', plainRule ''a/b/'' ''specific'']\<rparr>)
     ''a/b/note.md'' = Some ''general''"
    using first_matching_rule_wins [of
        "DEFAULT_SETTINGS\<lparr>folderRules := [plainRule ''a/'' ''general'', plainRule ''a/b/'' ''specific'']\<rparr>"
        "''a/b/note.md''" "plainRule ''a/'' ''general''" "[]" "plainRule ''a/b/'' ''specific''" "[]"]
    by (simp add: ruleDefs)
  show ?thesis using a r b by simp
qed

section \<open>The asynchronous operations\<close>

text \<open>The defining equations that evaluate the operations on a concrete vault.\<close>

lemmas worldDefs =
  normalizeFileNow_def restoreAliasesForFile_def applyTemplateToNewFile_def
  restoreAliasesForAllScopedFiles_def processFrontMatter_def scheduleNormalize_def
  getNamespaceSlugForFile_def getRuleForFile_def objectEntries_def ownPropertyEntries_def
  isArrayIndex_def decimalValue_def digitValue_def
  normalizePrefix_def replaceBackslashes_def projectsRule_def vaultOf_def

lemma templateStep_sets:
  "trim k \<noteq> [] \<Longrightarrow> managed = [] \<or> trim k \<in> set managed \<Longrightarrow>
   makeStorageKey st slug (trim k) \<noteq> ''__proto__'' \<Longrightarrow>
   own (templateStep st slug managed (k, v) ob) (makeStorageKey st slug (trim k)) \<noteq> None"
  by (auto simp: templateStep_def hasOwn_def Let_def own_setProp)

lemma templateLoop_sets:
  "(k, v) \<in> set entries \<Longrightarrow> trim k \<noteq> [] \<Longrightarrow> managed = [] \<or> trim k \<in> set managed \<Longrightarrow>
   makeStorageKey st slug (trim k) \<noteq> ''__proto__'' \<Longrightarrow>
   own (templateLoop st slug managed entries ob) (makeStorageKey st slug (trim k)) \<noteq> None"
proof (induction entries arbitrary: ob)
  case Nil
  then show ?case by simp
next
  case (Cons e es)
  show ?case
  proof (cases "e = (k, v)")
    case True
    obtain u where "own (templateStep st slug managed e ob) (makeStorageKey st slug (trim k)) = Some u"
      using templateStep_sets [OF Cons.prems(2,3,4), of v ob] True by auto
    then have "own (templateLoop st slug managed es (templateStep st slug managed e ob))
                 (makeStorageKey st slug (trim k)) = Some u"
      by (rule templateLoop_keeps)
    then show ?thesis by (simp add: templateLoop_def)
  next
    case False
    then have "(k, v) \<in> set es" using Cons.prems by simp
    then have "own (templateLoop st slug managed es (templateStep st slug managed e ob))
                 (makeStorageKey st slug (trim k)) \<noteq> None"
      using Cons.IH Cons.prems by blast
    then show ?thesis by (simp add: templateLoop_def)
  qed
qed

lemma applyTemplate_sets:
  "(k, v) \<in> set entries \<Longrightarrow> trim k \<noteq> [] \<Longrightarrow> managed = [] \<or> trim k \<in> set managed \<Longrightarrow>
   makeStorageKey st slug (trim k) \<noteq> ''__proto__'' \<Longrightarrow>
   applyTemplate st slug managed entries fm (makeStorageKey st slug (trim k)) \<noteq> None"
  by (simp add: applyTemplate_def templateLoop_sets)

text \<open>
  Claim C7 (as amended). With an empty managed-key list the sync operation and the restore
  operation return at once: no failure, and the whole state, every note's frontmatter
  included, is as before. The template mutator is not a no-op then: an empty managed-key
  list lifts the restriction to managed keys, and every declared key with a non-blank name
  gets its storage key, unless that storage key is \<open>__proto__\<close>.
\<close>

theorem empty_managed_keys:
  "(getManagedAliasKeys (settings w) = [] \<longrightarrow>
      normalizeFileNow w filePath reason = (Inr (), w) \<and> restoreAliasesForFile w filePath = (Inr (), w))
   \<and> ((k, v) \<in> set entries \<and> trim k \<noteq> [] \<and> makeStorageKey st slug (trim k) \<noteq> ''__proto__'' \<longrightarrow>
      applyTemplate st slug [] entries fm (makeStorageKey st slug (trim k)) \<noteq> None)"
proof (intro conjI impI)
  assume "getManagedAliasKeys (settings w) = []"
  then show "normalizeFileNow w filePath reason = (Inr (), w)"
    by (simp add: normalizeFileNow_def split: option.splits)
next
  assume "getManagedAliasKeys (settings w) = []"
  then show "restoreAliasesForFile w filePath = (Inr (), w)"
    by (simp add: restoreAliasesForFile_def split: option.splits)
next
  assume "(k, v) \<in> set entries \<and> trim k \<noteq> [] \<and> makeStorageKey st slug (trim k) \<noteq> ''__proto__''"
  then show "applyTemplate st slug [] entries fm (makeStorageKey st slug (trim k)) \<noteq> None"
    using applyTemplate_sets [of k v entries "[]" st slug fm] by blast
qed

theorem empty_managed_keys_witness:
  "getManagedAliasKeys (settings (vaultOf (DEFAULT_SETTINGS\<lparr>managedAliasKeys := '' , ''\<rparr>)
       (\<lambda>p. [''priority'' \<mapsto> JStr ''high'']) {})) = []
   \<and> normalizeFileNow (vaultOf (DEFAULT_SETTINGS\<lparr>managedAliasKeys := '' , ''\<rparr>)
       (\<lambda>p. [''priority'' \<mapsto> JStr ''high'']) {}) ''index/projects/a.md'' ReasonManual
     = (Inr (), vaultOf (DEFAULT_SETTINGS\<lparr>managedAliasKeys := '' , ''\<rparr>)
       (\<lambda>p. [''priority'' \<mapsto> JStr ''high'']) {})
   \<and> restoreAliasesForFile (vaultOf (DEFAULT_SETTINGS\<lparr>managedAliasKeys := '' , ''\<rparr>)
       (\<lambda>p. [''priority'' \<mapsto> JStr ''high'']) {}) ''index/projects/a.md''
     = (Inr (), vaultOf (DEFAULT_SETTINGS\<lparr>managedAliasKeys := '' , ''\<rparr>)
       (\<lambda>p. [''priority'' \<mapsto> JStr ''high'']) {})
   \<and> makeStorageKey DEFAULT_SETTINGS ''projects'' (trim ''priority'') \<noteq> ''__proto__''
   \<and> applyTemplate DEFAULT_SETTINGS ''projects'' [] [(''priority'', JStr ''medium'')] Map.empty
       (makeStorageKey DEFAULT_SETTINGS ''projects'' (trim ''priority'')) \<noteq> None"
proof -
  have e: "getManagedAliasKeys (settings (vaultOf (DEFAULT_SETTINGS\<lparr>managedAliasKeys := '' , ''\<rparr>)
       (\<lambda>p. [''priority'' \<mapsto> JStr ''high'']) {})) = []"
    by (simp add: vaultOf_def evalDefs)
  have t: "trim ''priority'' \<noteq> []"
    by (simp add: trim_def isSpace_def)
  have n: "makeStorageKey DEFAULT_SETTINGS ''projects'' (trim ''priority'') \<noteq> ''__proto__''"
    by (simp add: evalDefs)
  show ?thesis
    using e t n
      empty_managed_keys [of "vaultOf (DEFAULT_SETTINGS\<lparr>managedAliasKeys := '' , ''\<rparr>)
          (\<lambda>p. [''priority'' \<mapsto> JStr ''high'']) {}" "''index/projects/a.md''" ReasonManual
        "''priority''" "JStr ''medium''" "[(''priority'', JStr ''medium'')]"
        DEFAULT_SETTINGS "''projects''" Map.empty]
    by simp
qed

theorem template_with_empty_managed_keys_counterexample:
  "getManagedAliasKeys (settings (vaultOf (DEFAULT_SETTINGS\<lparr>managedAliasKeys := ''''\<rparr>)
       (\<lambda>p. Map.empty) {})) = []
   \<and> frontmatterOf (vaultOf (DEFAULT_SETTINGS\<lparr>managedAliasKeys := ''''\<rparr>) (\<lambda>p. Map.empty) {})
       ''index/projects/a.md'' ''projects__priority'' = None
   \<and> fst (applyTemplateToNewFile (vaultOf (DEFAULT_SETTINGS\<lparr>managedAliasKeys := ''''\<rparr>)
       (\<lambda>p. Map.empty) {}) ''index/projects/a.md'') = Inr ()
   \<and> frontmatterOf (snd (applyTemplateToNewFile (vaultOf (DEFAULT_SETTINGS\<lparr>managedAliasKeys := ''''\<rparr>)
       (\<lambda>p. Map.empty) {}) ''index/projects/a.md''))
       ''index/projects/a.md'' ''projects__priority'' = Some (JStr ''medium'')"
  by (simp add: worldDefs evalDefs)

lemma processFrontMatter_settings [simp]:
  "settings (snd (processFrontMatter w p fn)) = settings w"
  "writeRejects (snd (processFrontMatter w p fn)) = writeRejects w"
  "inFlight (snd (processFrontMatter w p fn)) = inFlight w"
  by (simp_all add: processFrontMatter_def)

lemma processFrontMatter_fst:
  "fst (processFrontMatter w p fn) = (if p \<in> writeRejects w then Inl StorageWriteFailure else Inr ())"
  by (simp add: processFrontMatter_def)

lemma restoreAliasesForFile_settings:
  "settings (snd (restoreAliasesForFile w f)) = settings w"
  "writeRejects (snd (restoreAliasesForFile w f)) = writeRejects w"
  by (simp_all add: restoreAliasesForFile_def Let_def split_beta split: option.splits)

lemma restoreAliasesForFile_fails:
  "fst (restoreAliasesForFile w f) = Inl e \<Longrightarrow> f \<in> writeRejects w"
  by (auto simp: restoreAliasesForFile_def Let_def split_beta processFrontMatter_fst
      split: option.splits if_splits)

lemma restoreAllLoop_append:
  "restoreAllLoop (xs @ ys) count w =
     (case restoreAllLoop xs count w of
        (Inl e, w') \<Rightarrow> (Inl e, w')
      | (Inr n, w') \<Rightarrow> restoreAllLoop ys n w')"
  by (induction xs arbitrary: count w) (auto split: option.splits prod.splits sum.splits)

lemma restoreAllLoop_count:
  "\<forall>f\<in>set fs. f \<notin> writeRejects w \<Longrightarrow>
   fst (restoreAllLoop fs count w) =
     Inr (count + length (filter (\<lambda>f. getRuleForFile (settings w) f \<noteq> None) fs))"
proof (induction fs arbitrary: count w)
  case Nil
  then show ?case by simp
next
  case (Cons f fs)
  show ?case
  proof (cases "getRuleForFile (settings w) f")
    case None
    then show ?thesis using Cons by simp
  next
    case (Some rule)
    obtain r w' where rw: "restoreAliasesForFile w f = (r, w')"
      by (cases "restoreAliasesForFile w f")
    have "f \<notin> writeRejects w" using Cons.prems by simp
    then have "\<not> (\<exists>e. r = Inl e)"
      using restoreAliasesForFile_fails [of w f] rw by auto
    then obtain u where r: "r = Inr u" by (cases r) auto
    have s: "settings w' = settings w" "writeRejects w' = writeRejects w"
      using restoreAliasesForFile_settings [of w f] rw by simp_all
    have "\<forall>g\<in>set fs. g \<notin> writeRejects w'" using Cons.prems s by simp
    then have "fst (restoreAllLoop fs (count + 1) w') =
        Inr (count + 1 + length (filter (\<lambda>f. getRuleForFile (settings w') f \<noteq> None) fs))"
      by (rule Cons.IH)
    then show ?thesis using Some rw r s by simp
  qed
qed

text \<open>
  Claim C8 (as amended). Bulk restore is not failure-isolated: the loop has no handler, so
  the first scoped document whose read-modify-write rejects ends the batch; the rejection
  is what the caller gets, with no count, and the documents listed after it are not
  processed. When no listed document's write rejects, the call returns the number of
  scoped documents in the list.
\<close>

theorem bulk_restore_stops_at_first_failure:
  "(markdownFiles w = before @ f # after \<and> restoreAllLoop before 0 w = (Inr n, w1)
      \<and> getRuleForFile (settings w1) f \<noteq> None \<and> restoreAliasesForFile w1 f = (Inl e, w2)
      \<longrightarrow> restoreAliasesForAllScopedFiles w = (Inl e, w2))
   \<and> ((\<forall>g\<in>set (markdownFiles w). g \<notin> writeRejects w)
      \<longrightarrow> fst (restoreAliasesForAllScopedFiles w) =
            Inr (length (filter (\<lambda>g. getRuleForFile (settings w) g \<noteq> None) (markdownFiles w))))"
proof (intro conjI impI)
  assume h: "markdownFiles w = before @ f # after \<and> restoreAllLoop before 0 w = (Inr n, w1)
      \<and> getRuleForFile (settings w1) f \<noteq> None \<and> restoreAliasesForFile w1 f = (Inl e, w2)"
  then have "restoreAllLoop (f # after) n w1 = (Inl e, w2)" by auto
  then show "restoreAliasesForAllScopedFiles w = (Inl e, w2)"
    using h by (simp add: restoreAliasesForAllScopedFiles_def restoreAllLoop_append)
next
  assume "\<forall>g\<in>set (markdownFiles w). g \<notin> writeRejects w"
  then show "fst (restoreAliasesForAllScopedFiles w) =
            Inr (length (filter (\<lambda>g. getRuleForFile (settings w) g \<noteq> None) (markdownFiles w)))"
    using restoreAllLoop_count [of "markdownFiles w" w 0]
    by (simp add: restoreAliasesForAllScopedFiles_def)
qed

theorem bulk_restore_stops_at_first_failure_witness:
  "restoreAliasesForAllScopedFiles
     (vaultOf DEFAULT_SETTINGS (\<lambda>p. [''projects__priority'' \<mapsto> JStr ''high'']) {''index/projects/a.md''})
     = (Inl StorageWriteFailure,
        vaultOf DEFAULT_SETTINGS (\<lambda>p. [''projects__priority'' \<mapsto> JStr ''high'']) {''index/projects/a.md''})
   \<and> fst (restoreAliasesForAllScopedFiles
        (vaultOf DEFAULT_SETTINGS (\<lambda>p. [''projects__priority'' \<mapsto> JStr ''high'']) {})) = Inr 2"
proof -
  let ?w = "vaultOf DEFAULT_SETTINGS (\<lambda>p. [''projects__priority'' \<mapsto> JStr ''high'']) {''index/projects/a.md''}"
  let ?v = "vaultOf DEFAULT_SETTINGS (\<lambda>p. [''projects__priority'' \<mapsto> JStr ''high'']) {}"
  have 1: "markdownFiles ?w = [] @ ''index/projects/a.md'' # [''index/projects/b.md'']"
    by (simp add: vaultOf_def)
  have 2: "restoreAllLoop [] 0 ?w = (Inr 0, ?w)" by simp
  have 3: "getRuleForFile (settings ?w) ''index/projects/a.md'' \<noteq> None"
    by (simp add: worldDefs trim_def isSpace_def Let_def)
  have 4: "restoreAliasesForFile ?w ''index/projects/a.md'' = (Inl StorageWriteFailure, ?w)"
    by (simp add: worldDefs evalDefs)
  have a: "restoreAliasesForAllScopedFiles ?w = (Inl StorageWriteFailure, ?w)"
    using bulk_restore_stops_at_first_failure [of ?w "[]" "''index/projects/a.md''"
        "[''index/projects/b.md'']" 0 ?w StorageWriteFailure ?w] 1 2 3 4
    by blast
  have 5: "\<forall>g\<in>set (markdownFiles ?v). g \<notin> writeRejects ?v"
    by (simp add: vaultOf_def)
  have 6: "length (filter (\<lambda>g. getRuleForFile (settings ?v) g \<noteq> None) (markdownFiles ?v)) = 2"
    by (simp add: worldDefs trim_def isSpace_def Let_def)
  have b: "fst (restoreAliasesForAllScopedFiles ?v) = Inr 2"
    using bulk_restore_stops_at_first_failure [of ?v] 5 6 by simp
  show ?thesis using a b by simp
qed

theorem bulk_restore_aborts_counterexample:
  "''index/projects/b.md'' \<in> set (markdownFiles
       (vaultOf DEFAULT_SETTINGS (\<lambda>p. [''projects__priority'' \<mapsto> JStr ''high'']) {''index/projects/a.md''}))
   \<and> ''index/projects/b.md'' \<notin> writeRejects
       (vaultOf DEFAULT_SETTINGS (\<lambda>p. [''projects__priority'' \<mapsto> JStr ''high'']) {''index/projects/a.md''})
   \<and> frontmatterOf (snd (restoreAliasesForFile
       (vaultOf DEFAULT_SETTINGS (\<lambda>p. [''projects__priority'' \<mapsto> JStr ''high'']) {''index/projects/a.md''})
       ''index/projects/b.md'')) ''index/projects/b.md'' ''priority'' = Some (JStr ''high'')
   \<and> fst (restoreAliasesForAllScopedFiles
       (vaultOf DEFAULT_SETTINGS (\<lambda>p. [''projects__priority'' \<mapsto> JStr ''high'']) {''index/projects/a.md''}))
       = Inl StorageWriteFailure
   \<and> frontmatterOf (snd (restoreAliasesForAllScopedFiles
       (vaultOf DEFAULT_SETTINGS (\<lambda>p. [''projects__priority'' \<mapsto> JStr ''high'']) {''index/projects/a.md''})))
       ''index/projects/b.md'' ''priority'' = None"
  by (simp add: worldDefs evalDefs)

lemma normalizeFileNow_inFlight:
  "inFlight (snd (normalizeFileNow w filePath reason)) = inFlight w"
  by (auto simp: normalizeFileNow_def Let_def split_beta split: option.splits)

lemma normalizeFileNow_runs:
  assumes "getNamespaceSlugForFile (settings w) filePath = Some slug"
    and "filePath \<notin> inFlight w"
    and "getManagedAliasKeys (settings w) \<noteq> []"
    and "computeNeedsNormalization (settings w)
           (case cachedFrontmatter w filePath of None \<Rightarrow> Map.empty | Some fm \<Rightarrow> fm)
           slug (getManagedAliasKeys (settings w))"
  shows "normalizeFileNow w filePath reason =
     (if filePath \<in> writeRejects w then (Inl StorageWriteFailure, w)
      else (Inr (), w\<lparr>frontmatterOf := (frontmatterOf w)
              (filePath := applySync (settings w) slug (getManagedAliasKeys (settings w))
                             (frontmatterOf w filePath))\<rparr>))"
  using assms by (simp add: normalizeFileNow_def Let_def processFrontMatter_def)

text \<open>
  Claim C9. The in-flight marker is always released: a sync operation that finds the path
  not in flight leaves it not in flight when it settles, on every exit, whether the
  read-modify-write it wraps succeeds or rejects; the in-flight set is then what it was
  before the operation.
\<close>

theorem in_flight_marker_released:
  assumes "filePath \<notin> inFlight w"
  shows "filePath \<notin> inFlight (snd (normalizeFileNow w filePath reason))
       \<and> inFlight (snd (normalizeFileNow w filePath reason)) = inFlight w"
  using assms by (simp add: normalizeFileNow_inFlight)

theorem in_flight_marker_released_witness:
  "''index/projects/a.md'' \<notin> inFlight
      (vaultOf DEFAULT_SETTINGS (\<lambda>p. [''priority'' \<mapsto> JStr ''high'']) {''index/projects/a.md''})
   \<and> fst (normalizeFileNow
      (vaultOf DEFAULT_SETTINGS (\<lambda>p. [''priority'' \<mapsto> JStr ''high'']) {''index/projects/a.md''})
      ''index/projects/a.md'' ReasonModify) = Inl StorageWriteFailure
   \<and> ''index/projects/a.md'' \<notin> inFlight (snd (normalizeFileNow
      (vaultOf DEFAULT_SETTINGS (\<lambda>p. [''priority'' \<mapsto> JStr ''high'']) {''index/projects/a.md''})
      ''index/projects/a.md'' ReasonModify))
   \<and> fst (normalizeFileNow
      (vaultOf DEFAULT_SETTINGS (\<lambda>p. [''priority'' \<mapsto> JStr ''high'']) {})
      ''index/projects/a.md'' ReasonModify) = Inr ()
   \<and> frontmatterOf (snd (normalizeFileNow
      (vaultOf DEFAULT_SETTINGS (\<lambda>p. [''priority'' \<mapsto> JStr ''high'']) {})
      ''index/projects/a.md'' ReasonModify)) ''index/projects/a.md'' ''projects__priority''
      = Some (JStr ''high'')
   \<and> ''index/projects/a.md'' \<notin> inFlight (snd (normalizeFileNow
      (vaultOf DEFAULT_SETTINGS (\<lambda>p. [''priority'' \<mapsto> JStr ''high'']) {})
      ''index/projects/a.md'' ReasonModify))"
proof -
  let ?w = "vaultOf DEFAULT_SETTINGS (\<lambda>p. [''priority'' \<mapsto> JStr ''high'']) {''index/projects/a.md''}"
  let ?v = "vaultOf DEFAULT_SETTINGS (\<lambda>p. [''priority'' \<mapsto> JStr ''high'']) {}"
  have 1: "''index/projects/a.md'' \<notin> inFlight ?w" by (simp add: vaultOf_def)
  have 2: "''index/projects/a.md'' \<notin> inFlight ?v" by (simp add: vaultOf_def)
  have 3: "fst (normalizeFileNow ?w ''index/projects/a.md'' ReasonModify) = Inl StorageWriteFailure"
    by (simp add: worldDefs evalDefs)
  have 4: "fst (normalizeFileNow ?v ''index/projects/a.md'' ReasonModify) = Inr ()"
    by (simp add: worldDefs evalDefs)
  have 5: "frontmatterOf (snd (normalizeFileNow ?v ''index/projects/a.md'' ReasonModify))
             ''index/projects/a.md'' ''projects__priority'' = Some (JStr ''high'')"
    by (simp add: worldDefs evalDefs)
  show ?thesis
    using 1 3 4 5
      in_flight_marker_released [OF 1, of ReasonModify, THEN conjunct1]
      in_flight_marker_released [OF 2, of ReasonModify, THEN conjunct1]
    by blast
qed

section \<open>Template application\<close>

lemma templateStep_skips:
  "trim k = [] \<or> (managed \<noteq> [] \<and> trim k \<notin> set managed)
     \<or> own ob (makeStorageKey st slug (trim k)) \<noteq> None \<Longrightarrow>
   templateStep st slug managed (k, v) ob = ob"
  by (auto simp: templateStep_def hasOwn_def Let_def)

lemma templateStep_applies:
  assumes "trim k \<noteq> []" and "managed = [] \<or> trim k \<in> set managed"
    and "own ob (makeStorageKey st slug (trim k)) = None"
    and "makeStorageKey st slug (trim k) \<noteq> ''__proto__''" and "trim k \<noteq> ''__proto__''"
  shows "own (templateStep st slug managed (k, v) ob) =
     (if removePlainAliasKeysOnSync st \<or> own ob (trim k) \<noteq> None
      then (own ob)(makeStorageKey st slug (trim k) \<mapsto> v)
      else (own ob)(makeStorageKey st slug (trim k) \<mapsto> v, trim k \<mapsto> v))"
  using assms by (auto simp: templateStep_def hasOwn_def Let_def own_setProp)

lemma templateStep_removal_on:
  "removePlainAliasKeysOnSync st \<Longrightarrow> makeStorageKey st slug (trim (fst kv)) \<noteq> ''__proto__'' \<Longrightarrow>
   own (templateStep st slug managed kv ob) = map_of (declaredDefaults st slug managed [kv]) ++ own ob"
  by (rule ext) (auto simp: templateStep_def declaredDefaults_def hasOwn_def Let_def map_add_def
      own_setProp split: option.splits)

lemma templateLoop_removal_on:
  "removePlainAliasKeysOnSync st \<Longrightarrow>
   \<forall>kv\<in>set entries. makeStorageKey st slug (trim (fst kv)) \<noteq> ''__proto__'' \<Longrightarrow>
   own (templateLoop st slug managed entries ob) = map_of (declaredDefaults st slug managed entries) ++ own ob"
proof (induction entries arbitrary: ob)
  case Nil
  then show ?case by (simp add: templateLoop_def declaredDefaults_def)
next
  case (Cons e es)
  have "own (templateLoop st slug managed (e # es) ob)
          = own (templateLoop st slug managed es (templateStep st slug managed e ob))"
    by (simp add: templateLoop_def)
  also have "\<dots> = map_of (declaredDefaults st slug managed es)
                    ++ (map_of (declaredDefaults st slug managed [e]) ++ own ob)"
    using Cons by (simp add: templateStep_removal_on)
  also have "\<dots> = map_of (declaredDefaults st slug managed (e # es)) ++ own ob"
    by (rule ext) (auto simp: declaredDefaults_def map_add_def split: option.splits)
  finally show ?case .
qed

text \<open>The defining equations that evaluate \<open>Object.entries\<close> on a concrete template.\<close>

lemmas entryDefs =
  objectEntries_def ownPropertyEntries_def isArrayIndex_def decimalValue_def digitValue_def

text \<open>
  Claim C10 (as amended). With the default settings the template
  \<open>{priority: "medium", status: "draft", owner: null}\<close> applied under slug \<open>projects\<close>
  to an empty frontmatter map gives exactly the three storage keys with the declared
  values. In general the declared keys are processed in the order in which
  \<open>Object.entries\<close> enumerates the parsed template: the keys that are array indices first,
  in ascending numeric order, then the other keys in declaration order. A key is trimmed,
  and skipped when it is blank, when the managed-key list is non-empty and does not hold
  it, or when its storage key exists; otherwise, when neither its storage key nor the
  trimmed key is \<open>__proto__\<close>, its storage key is set to the declared value, and with the
  removal policy off the alias key is set too when absent. With the removal policy on and
  no storage key \<open>__proto__\<close>, the result is the input map extended by the first
  enumerated value of each admitted key.
\<close>

theorem template_application:
  "map_option (\<lambda>entries. applyTemplate DEFAULT_SETTINGS ''projects''
                  (getManagedAliasKeys DEFAULT_SETTINGS) entries Map.empty)
      (objectEntries (JObj [(''priority'', JStr ''medium''), (''status'', JStr ''draft''),
                            (''owner'', JNull)]))
     = Some [''projects__priority'' \<mapsto> JStr ''medium'', ''projects__status'' \<mapsto> JStr ''draft'',
             ''projects__owner'' \<mapsto> JNull]
   \<and> objectEntries (JObj declared)
     = Some (sort_key (\<lambda>kv. decimalValue (fst kv)) (filter (\<lambda>kv. isArrayIndex (fst kv)) declared)
             @ filter (\<lambda>kv. \<not> isArrayIndex (fst kv)) declared)
   \<and> templateLoop st slug managed ((k, v) # entries) ob
     = templateLoop st slug managed entries (templateStep st slug managed (k, v) ob)
   \<and> (trim k = [] \<or> (managed \<noteq> [] \<and> trim k \<notin> set managed)
         \<or> own ob (makeStorageKey st slug (trim k)) \<noteq> None
       \<longrightarrow> templateStep st slug managed (k, v) ob = ob)
   \<and> (trim k \<noteq> [] \<and> (managed = [] \<or> trim k \<in> set managed)
         \<and> own ob (makeStorageKey st slug (trim k)) = None
         \<and> makeStorageKey st slug (trim k) \<noteq> ''__proto__'' \<and> trim k \<noteq> ''__proto__''
       \<longrightarrow> own (templateStep st slug managed (k, v) ob) =
            (if removePlainAliasKeysOnSync st \<or> own ob (trim k) \<noteq> None
             then (own ob)(makeStorageKey st slug (trim k) \<mapsto> v)
             else (own ob)(makeStorageKey st slug (trim k) \<mapsto> v, trim k \<mapsto> v)))
   \<and> (removePlainAliasKeysOnSync st
         \<and> (\<forall>kv\<in>set entries. makeStorageKey st slug (trim (fst kv)) \<noteq> ''__proto__'')
       \<longrightarrow> applyTemplate st slug managed entries fm
            = map_of (declaredDefaults st slug managed entries) ++ fm)"
proof (intro conjI impI)
  show "map_option (\<lambda>entries. applyTemplate DEFAULT_SETTINGS ''projects''
                  (getManagedAliasKeys DEFAULT_SETTINGS) entries Map.empty)
      (objectEntries (JObj [(''priority'', JStr ''medium''), (''status'', JStr ''draft''),
                            (''owner'', JNull)]))
     = Some [''projects__priority'' \<mapsto> JStr ''medium'', ''projects__status'' \<mapsto> JStr ''draft'',
             ''projects__owner'' \<mapsto> JNull]"
    by (simp add: entryDefs evalDefs)
next
  show "objectEntries (JObj declared)
     = Some (sort_key (\<lambda>kv. decimalValue (fst kv)) (filter (\<lambda>kv. isArrayIndex (fst kv)) declared)
             @ filter (\<lambda>kv. \<not> isArrayIndex (fst kv)) declared)"
    by (simp add: objectEntries_def ownPropertyEntries_def)
next
  show "templateLoop st slug managed ((k, v) # entries) ob
     = templateLoop st slug managed entries (templateStep st slug managed (k, v) ob)"
    by (simp add: templateLoop_def)
next
  assume "trim k = [] \<or> (managed \<noteq> [] \<and> trim k \<notin> set managed)
         \<or> own ob (makeStorageKey st slug (trim k)) \<noteq> None"
  then show "templateStep st slug managed (k, v) ob = ob"
    by (rule templateStep_skips)
next
  assume h: "trim k \<noteq> [] \<and> (managed = [] \<or> trim k \<in> set managed)
         \<and> own ob (makeStorageKey st slug (trim k)) = None
         \<and> makeStorageKey st slug (trim k) \<noteq> ''__proto__'' \<and> trim k \<noteq> ''__proto__''"
  show "own (templateStep st slug managed (k, v) ob) =
            (if removePlainAliasKeysOnSync st \<or> own ob (trim k) \<noteq> None
             then (own ob)(makeStorageKey st slug (trim k) \<mapsto> v)
             else (own ob)(makeStorageKey st slug (trim k) \<mapsto> v, trim k \<mapsto> v))"
    by (rule templateStep_applies) (simp_all add: h)
next
  assume "removePlainAliasKeysOnSync st
         \<and> (\<forall>kv\<in>set entries. makeStorageKey st slug (trim (fst kv)) \<noteq> ''__proto__'')"
  then show "applyTemplate st slug managed entries fm
            = map_of (declaredDefaults st slug managed entries) ++ fm"
    using templateLoop_removal_on [of st entries slug managed "freshObject fm"]
    by (simp add: applyTemplate_def)
qed

theorem template_application_witness:
  "removePlainAliasKeysOnSync DEFAULT_SETTINGS
   \<and> objectEntries (JObj [(''priority'', JStr ''medium''), (''tags'', JStr ''x''),
                          ('' priority'', JStr ''low''), (''owner'', JNull), (''7'', JNull)])
       = Some [(''7'', JNull), (''priority'', JStr ''medium''), (''tags'', JStr ''x''),
               ('' priority'', JStr ''low''), (''owner'', JNull)]
   \<and> applyTemplate DEFAULT_SETTINGS ''projects'' (getManagedAliasKeys DEFAULT_SETTINGS)
      [(''7'', JNull), (''priority'', JStr ''medium''), (''tags'', JStr ''x''),
       ('' priority'', JStr ''low''), (''owner'', JNull)] [''projects__owner'' \<mapsto> JStr ''me'']
      = [''projects__priority'' \<mapsto> JStr ''medium'', ''projects__owner'' \<mapsto> JStr ''me'']"
proof -
  let ?es = "[(''7'', JNull), (''priority'', JStr ''medium''), (''tags'', JStr ''x''),
       ('' priority'', JStr ''low''), (''owner'', JNull)]"
  have r: "removePlainAliasKeysOnSync DEFAULT_SETTINGS" by (simp add: DEFAULT_SETTINGS_def)
  have n: "\<forall>kv\<in>set ?es. makeStorageKey DEFAULT_SETTINGS ''projects'' (trim (fst kv)) \<noteq> ''__proto__''"
    by (simp add: evalDefs)
  have o: "objectEntries (JObj [(''priority'', JStr ''medium''), (''tags'', JStr ''x''),
                          ('' priority'', JStr ''low''), (''owner'', JNull), (''7'', JNull)])
       = Some ?es"
    using template_application [THEN conjunct2, THEN conjunct1, of
        "[(''priority'', JStr ''medium''), (''tags'', JStr ''x''),
          ('' priority'', JStr ''low''), (''owner'', JNull), (''7'', JNull)]"]
    by (simp add: isArrayIndex_def decimalValue_def digitValue_def)
  have "applyTemplate DEFAULT_SETTINGS ''projects'' (getManagedAliasKeys DEFAULT_SETTINGS)
      ?es [''projects__owner'' \<mapsto> JStr ''me'']
     = map_of (declaredDefaults DEFAULT_SETTINGS ''projects'' (getManagedAliasKeys DEFAULT_SETTINGS) ?es)
         ++ [''projects__owner'' \<mapsto> JStr ''me'']"
    using r n template_application [of "[]" DEFAULT_SETTINGS "''projects''"
        "getManagedAliasKeys DEFAULT_SETTINGS" "''x''" JNull ?es "freshObject Map.empty"
        "[''projects__owner'' \<mapsto> JStr ''me'']"]
    by blast
  also have "\<dots> = [''projects__priority'' \<mapsto> JStr ''medium'', ''projects__owner'' \<mapsto> JStr ''me'']"
    by (rule ext) (simp add: declaredDefaults_def evalDefs map_add_def)
  finally show ?thesis using r o by simp
qed

theorem template_application_counterexample:
  "map_option (\<lambda>entries. applyTemplate (DEFAULT_SETTINGS\<lparr>managedAliasKeys := ''1''\<rparr>) ''projects''
                  (getManagedAliasKeys (DEFAULT_SETTINGS\<lparr>managedAliasKeys := ''1''\<rparr>)) entries Map.empty
                  ''projects__1'')
      (objectEntries (JObj [('' 1'', JStr ''first''), (''1'', JStr ''second'')]))
     = Some (Some (JStr ''second''))
   \<and> applyTemplate (DEFAULT_SETTINGS\<lparr>managedAliasKeys := ''1''\<rparr>) ''projects''
        (getManagedAliasKeys (DEFAULT_SETTINGS\<lparr>managedAliasKeys := ''1''\<rparr>))
        [('' 1'', JStr ''first''), (''1'', JStr ''second'')] Map.empty ''projects__1''
     = Some (JStr ''first'')
   \<and> '' priority '' \<notin> set (getManagedAliasKeys DEFAULT_SETTINGS)
   \<and> getManagedAliasKeys DEFAULT_SETTINGS \<noteq> []
   \<and> applyTemplate DEFAULT_SETTINGS ''projects'' (getManagedAliasKeys DEFAULT_SETTINGS)
        [('' priority '', JStr ''medium'')] Map.empty ''projects__priority'' = Some (JStr ''medium'')
   \<and> getManagedAliasKeys (DEFAULT_SETTINGS\<lparr>managedAliasKeys := ''''\<rparr>) = []
   \<and> applyTemplate (DEFAULT_SETTINGS\<lparr>managedAliasKeys := ''''\<rparr>) ''projects''
        (getManagedAliasKeys (DEFAULT_SETTINGS\<lparr>managedAliasKeys := ''''\<rparr>))
        [('' '', JStr ''medium'')] Map.empty = Map.empty
   \<and> map_option (\<lambda>entries. applyTemplate (DEFAULT_SETTINGS\<lparr>removePlainAliasKeysOnSync := False\<rparr>)
                  ''projects'' (getManagedAliasKeys DEFAULT_SETTINGS) entries Map.empty ''priority'')
      (objectEntries (JObj [(''priority'', JStr ''medium''), (''status'', JStr ''draft''),
                            (''owner'', JNull)]))
     = Some (Some (JStr ''medium''))"
  by (simp add: entryDefs evalDefs)

text \<open>A declared key whose storage key is \<open>__proto__\<close> (separator \<open>_\<close>, slug \<open>_\<close>, key
  \<open>proto__\<close>) gets no storage key: the assignment reaches the accessor of
  \<open>Object.prototype\<close>.\<close>

lemma template_proto_example:
  "makeStorageKey (DEFAULT_SETTINGS\<lparr>storageSeparator := ''_'', managedAliasKeys := ''''\<rparr>) ''_'' ''proto__''
     = ''__proto__''
   \<and> applyTemplate (DEFAULT_SETTINGS\<lparr>storageSeparator := ''_'', managedAliasKeys := ''''\<rparr>) ''_'' []
        [(''proto__'', JStr ''x'')] Map.empty = Map.empty"
  by (simp add: evalDefs)

end
